theory Spec2Isabelle
  imports Complex_Main "HOL-Library.Sublist"
begin

section \<open>Data model (types.ts)\<close>

datatype GenerationStatus =
  IDLE | GENERATING_OUTLINE | REVIEWING_OUTLINE | GENERATING_BOOK | COMPLETED | ERROR

text \<open>The \<^verbatim>\<open>status\<close> union of \<^verbatim>\<open>Chapter\<close>:
  \<^verbatim>\<open>'pending' | 'generating_text' | 'generating_image' | 'completed' | 'error'\<close>.\<close>

datatype ChapterStatus = Pending | Generating_text | Generating_image | Completed | Error

datatype BookFormat = Ebook | Linkedin_carousel

text \<open>Optional fields (\<^verbatim>\<open>content?\<close>, \<^verbatim>\<open>imageUrl?\<close>, \<^verbatim>\<open>coverImage?\<close>) are options;
  \<open>None\<close> is \<^verbatim>\<open>undefined\<close>.\<close>

record Chapter =
  chapter_id :: string
  chapter_title :: string
  description :: string
  content :: "string option"
  imageUrl :: "string option"
  chapter_status :: ChapterStatus

record BookConfig =
  topic :: string
  title :: string
  authorName :: string
  audience :: string
  tone :: string
  enableSearch :: bool
  style :: string
  chapterCount :: int
  format :: BookFormat

text \<open>\<^verbatim>\<open>generatedAt\<close> is a \<^verbatim>\<open>Date\<close>; the model keeps its millisecond time stamp.\<close>

record BookData =
  book_config :: BookConfig
  coverImage :: "string option"
  outline :: "Chapter list"
  generatedAt :: nat

subsection \<open>JavaScript helpers\<close>

text \<open>Truthiness of a value of type \<^verbatim>\<open>string | undefined | null\<close>: only a non-empty
  string is truthy.\<close>

definition truthy :: "string option \<Rightarrow> bool" where
  "truthy v = (case v of None \<Rightarrow> False | Some s \<Rightarrow> s \<noteq> [])"

text \<open>\<^verbatim>\<open>a || b\<close> on such values.\<close>

definition js_or :: "string option \<Rightarrow> string option \<Rightarrow> string option" where
  "js_or a b = (if truthy a then a else b)"

text \<open>\<^verbatim>\<open>s.includes(sub)\<close>.\<close>

definition js_includes :: "string \<Rightarrow> string \<Rightarrow> bool" where
  "js_includes s sub = sublist sub s"

text \<open>Decimal rendering of a non-negative integer inside a template literal.\<close>

fun string_of_nat :: "nat \<Rightarrow> string" where
  "string_of_nat n =
     (if n < 10 then [char_of (48 + n)]
      else string_of_nat (n div 10) @ [char_of (48 + n mod 10)])"

declare string_of_nat.simps [simp del]

section \<open>Content provider client (services/geminiService.ts)\<close>

text \<open>An exception is modelled by the \<^verbatim>\<open>message\<close> of the thrown \<^verbatim>\<open>Error\<close>; a
  fallible call returns \<open>Inl message\<close> when it throws (or its promise rejects) and
  \<open>Inr value\<close> otherwise.\<close>

type_synonym 'a result = "string + 'a"

text \<open>What a request to the SDK is built from. The prompt texts are fixed templates
  over these arguments, so the request is kept in structured form.\<close>

datatype AspectRatio = R3_4 | R16_9 | R4_3 | R1_1

datatype Request =
    OutlineRequest BookConfig
  | TextRequest Chapter string BookConfig "string option"
  | CoverRequest string string BookFormat AspectRatio
  | IllustrationRequest string string AspectRatio

text \<open>One part of an image response: \<^verbatim>\<open>part.inlineData\<close> with its
  \<^verbatim>\<open>mimeType\<close> and \<^verbatim>\<open>data\<close>, when present.\<close>

type_synonym Part = "(string \<times> string) option"

text \<open>The calls Phase C makes to the service: for the cover, and for the text and the
  illustration of the section with a given index.\<close>

datatype Call = CoverCall | TextCall nat | ImageCall nat

text \<open>The value of \<^verbatim>\<open>JSON.parse\<close> as far as the program looks at it: whether it is falsy
  (\<^verbatim>\<open>null\<close>, \<^verbatim>\<open>false\<close>, \<^verbatim>\<open>0\<close>, \<^verbatim>\<open>""\<close>), and for the other values the property
  \<^verbatim>\<open>title\<close>, when it is there, and the property \<^verbatim>\<open>chapters\<close>, when it is an array. The
  elements of the array are taken at their declared type
  \<^verbatim>\<open>Omit<Chapter, 'status' | 'id'>\<close>; the program never inspects them.\<close>

record OutlineChapter =
  oc_title :: string
  oc_description :: string
  oc_content :: "string option"
  oc_imageUrl :: "string option"

datatype JsonData = Falsy | Truthy "string option" "OutlineChapter list option"

fun data_title :: "JsonData \<Rightarrow> string option" where
  "data_title Falsy = None"
| "data_title (Truthy t cs) = t"

fun data_chapters :: "JsonData \<Rightarrow> OutlineChapter list option" where
  "data_chapters Falsy = None"
| "data_chapters (Truthy t cs) = cs"

text \<open>The world outside the repository: the two places the credential is read from, and
  the SDK (\<^verbatim>\<open>@google/genai\<close>). The SDK's answer may depend on the request and on
  which call of the run it is (the number of service calls made before it).
  \<^item> \<^verbatim>\<open>generateContent\<close> for text: rejects, or returns \<^verbatim>\<open>response.text\<close>;
  \<^item> \<^verbatim>\<open>generateContentStream\<close>: rejects, or delivers the \<^verbatim>\<open>chunk.text\<close> of each
    chunk and then either ends or fails with an error;
  \<^item> \<^verbatim>\<open>generateContent\<close> for an image: rejects, or returns the parts of the first
    candidate (\<open>[]\<close> when there is none);
  \<^item> \<^verbatim>\<open>JSON.parse\<close>: throws a syntax error, or returns the parsed value.\<close>

record Env =
  localStorage_key :: "string option"
  env_API_KEY :: "string option"
  sdk_text :: "nat \<Rightarrow> Request \<Rightarrow> (string option) result"
  sdk_stream :: "nat \<Rightarrow> Request \<Rightarrow> (string option list \<times> string option) result"
  sdk_image :: "nat \<Rightarrow> Request \<Rightarrow> (Part list) result"
  JSON_parse :: "string \<Rightarrow> JsonData result"

definition API_KEY_MISSING :: string where
  "API_KEY_MISSING = ''API Key missing. Please add your Gemini API Key in the settings.''"

definition getClient :: "Env \<Rightarrow> unit result" where
  "getClient env =
     (let apiKey = js_or (localStorage_key env) (env_API_KEY env)
      in if \<not> truthy apiKey then Inl API_KEY_MISSING else Inr ())"

text \<open>The async generator \<^verbatim>\<open>generateChapterContentStream\<close>, as the fragments it yields
  and the error that ends it, if any. Nothing runs before the consumer asks for the
  first fragment, so a throw of \<^verbatim>\<open>getClient\<close> or a rejection of the SDK call is a
  stream that fails after no fragment. Only chunks with a truthy text are yielded.\<close>

definition generateChapterContentStream ::
  "Env \<Rightarrow> nat \<Rightarrow> Chapter \<Rightarrow> string \<Rightarrow> BookConfig \<Rightarrow> string option
     \<Rightarrow> string list \<times> string option" where
  "generateChapterContentStream env n chapter bookTitle cfg previousChapterSummary =
     (case getClient env of
        Inl e \<Rightarrow> ([], Some e)
      | Inr ai \<Rightarrow>
          (case sdk_stream env n (TextRequest chapter bookTitle cfg previousChapterSummary) of
             Inl e \<Rightarrow> ([], Some e)
           | Inr (chunks, failure) \<Rightarrow> (map the (filter truthy chunks), failure)))"

fun first_inlineData :: "Part list \<Rightarrow> string option" where
  "first_inlineData [] = None"
| "first_inlineData (None # parts) = first_inlineData parts"
| "first_inlineData (Some (mimeType, d) # parts) =
     Some (''data:'' @ mimeType @ '';base64,'' @ d)"

definition generateImage :: "Env \<Rightarrow> nat \<Rightarrow> Request \<Rightarrow> string result" where
  "generateImage env n request =
     (case getClient env of
        Inl e \<Rightarrow> Inl e
      | Inr ai \<Rightarrow>
          (case sdk_image env n request of
             Inl e \<Rightarrow> Inl e
           | Inr parts \<Rightarrow>
               (case first_inlineData parts of
                  Some url \<Rightarrow> Inr url
                | None \<Rightarrow> Inl ''No image generated'')))"

definition generateBookCover :: "Env \<Rightarrow> nat \<Rightarrow> string \<Rightarrow> string \<Rightarrow> BookFormat \<Rightarrow> string result" where
  "generateBookCover env n ttl sty fmt =
     (let aspectRatio = (if fmt = Linkedin_carousel then R3_4 else R3_4)
      in generateImage env n (CoverRequest ttl sty fmt aspectRatio))"

definition generateChapterIllustration ::
  "Env \<Rightarrow> nat \<Rightarrow> string \<Rightarrow> string \<Rightarrow> BookFormat \<Rightarrow> string result" where
  "generateChapterIllustration env n chapterTitle sty fmt =
     (let aspectRatio = (if fmt = Linkedin_carousel then R4_3 else R16_9)
      in generateImage env n (IllustrationRequest chapterTitle sty aspectRatio))"

section \<open>Application state (App.tsx)\<close>

record Progress =
  current :: nat
  total :: nat
  message :: string

text \<open>The React state of \<^verbatim>\<open>App\<close>.\<close>

record App =
  status :: GenerationStatus
  config :: BookConfig
  bookData :: "BookData option"
  error :: "string option"
  isApiKeyModalOpen :: bool
  generationProgress :: Progress

text \<open>A run of \<^verbatim>\<open>startFullGeneration\<close>: the React state, the locals
  \<^verbatim>\<open>totalSteps\<close>, \<^verbatim>\<open>completedSteps\<close> and \<^verbatim>\<open>newOutline\<close>, and two logs of what the run
  does to the outside:
  every value given to \<^verbatim>\<open>setBookData\<close> (the snapshots an observer sees, oldest first)
  and every call of the content provider client.\<close>

record Run = App +
  totalSteps :: nat
  completedSteps :: nat
  newOutline :: "Chapter list"
  snapshots :: "BookData option list"
  calls :: "Call list"

definition setBookData :: "(BookData option \<Rightarrow> BookData option) \<Rightarrow> Run \<Rightarrow> Run" where
  "setBookData f r =
     r\<lparr>bookData := f (bookData r), snapshots := snapshots r @ [f (bookData r)]\<rparr>"

text \<open>\<^verbatim>\<open>setBookData(prev => prev ? ({ ...prev, outline: [...newOutline] }) : null)\<close>\<close>

definition publishOutline :: "Run \<Rightarrow> Run" where
  "publishOutline r =
     setBookData (\<lambda>prev. case prev of Some p \<Rightarrow> Some (p\<lparr>outline := newOutline r\<rparr>)
                                    | None \<Rightarrow> None) r"

definition updateProgress :: "string \<Rightarrow> Run \<Rightarrow> Run" where
  "updateProgress msg r =
     r\<lparr>generationProgress :=
         \<lparr>current = completedSteps r, total = totalSteps r, message = msg\<rparr>\<rparr>"

definition logCall :: "Call \<Rightarrow> Run \<Rightarrow> Run" where
  "logCall c r = r\<lparr>calls := calls r @ [c]\<rparr>"

section \<open>Phase C: \<^verbatim>\<open>startFullGeneration\<close>\<close>

text \<open>Step 1, the cover. A failure of \<^verbatim>\<open>generateBookCover\<close> is caught and logged to the
  console only.\<close>

definition cover_step :: "Env \<Rightarrow> BookData \<Rightarrow> Run \<Rightarrow> Run" where
  "cover_step env bd r =
     (let r1 =
        (if \<not> truthy (coverImage bd) then
           (let r2 = updateProgress ''Designing book cover...'' r;
                n = length (calls r2);
                r3 = logCall CoverCall r2
            in case generateBookCover env n (title (book_config bd)) (style (book_config bd))
                      (format (book_config bd)) of
                 Inr coverUrl \<Rightarrow>
                   setBookData (\<lambda>prev. case prev of
                                  Some p \<Rightarrow> Some (p\<lparr>coverImage := Some coverUrl\<rparr>)
                                | None \<Rightarrow> None) r3
               | Inl e \<Rightarrow> r3)
         else r)
      in r1\<lparr>completedSteps := completedSteps r1 + 1\<rparr>)"

text \<open>The \<^verbatim>\<open>for await\<close> loop over the fragments: the local \<^verbatim>\<open>fullText\<close> grows by the
  fragment, the section's content becomes \<^verbatim>\<open>fullText\<close> and the outline is published.\<close>

fun consume_stream :: "nat \<Rightarrow> string list \<Rightarrow> string \<Rightarrow> Run \<Rightarrow> string \<times> Run" where
  "consume_stream i [] fullText r = (fullText, r)"
| "consume_stream i (chunk # rest) fullText r =
     (let fullText' = fullText @ chunk;
          r1 = r\<lparr>newOutline := (newOutline r)[i := (newOutline r ! i)\<lparr>content := Some fullText'\<rparr>]\<rparr>
      in consume_stream i rest fullText' (publishOutline r1))"

definition TEXT_ERROR_PLACEHOLDER :: string where
  "TEXT_ERROR_PLACEHOLDER = ''*Error generating text. Please try regenerating.*''"

text \<open>The rule that skips a finished section on resume:
  \<^verbatim>\<open>chapter.status === 'completed' && chapter.content && chapter.imageUrl\<close>.\<close>

definition skip_rule :: "Chapter \<Rightarrow> bool" where
  "skip_rule chapter \<longleftrightarrow>
     chapter_status chapter = Completed \<and> truthy (content chapter) \<and> truthy (imageUrl chapter)"

text \<open>\<^verbatim>\<open>const prevContext = i > 0 ? newOutline[i-1].description : undefined\<close>\<close>

definition prevContext :: "nat \<Rightarrow> Chapter list \<Rightarrow> string option" where
  "prevContext i xs = (if i > 0 then Some (description (xs ! (i - 1))) else None)"

text \<open>The start of the writing sub-step of section \<open>i\<close>: the status becomes
  \<^verbatim>\<open>generating_text\<close>, the outline is published and the progress refreshed. (The
  scrolling of the progress view touches the page only and is left out.)\<close>

definition begin_writing :: "nat \<Rightarrow> Chapter \<Rightarrow> Run \<Rightarrow> Run" where
  "begin_writing i chapter r =
     updateProgress
       (''Writing Chapter '' @ string_of_nat (i + 1) @ '': '' @ chapter_title chapter @ ''...'')
       (publishOutline
          (r\<lparr>newOutline := (newOutline r)[i := chapter\<lparr>chapter_status := Generating_text\<rparr>]\<rparr>))"

text \<open>The text sub-step of section \<open>i\<close>: the \<^verbatim>\<open>try\<close> block around the stream and its
  \<^verbatim>\<open>catch\<close>, which keeps what has arrived or, when nothing has, the placeholder
  (\<^verbatim>\<open>fullText = fullText || "*Error ...*"\<close>). The result is the final \<^verbatim>\<open>fullText\<close>.\<close>

definition text_step :: "Env \<Rightarrow> BookData \<Rightarrow> nat \<Rightarrow> Chapter \<Rightarrow> Run \<Rightarrow> string \<times> Run" where
  "text_step env bd i chapter r =
     (let n = length (calls r);
          r1 = logCall (TextCall i) r;
          (fragments, failure) =
             generateChapterContentStream env n chapter (title (book_config bd))
               (book_config bd) (prevContext i (newOutline r));
          (fullText, r2) = consume_stream i fragments [] r1
      in case failure of
           None \<Rightarrow> (fullText, r2)
         | Some streamError \<Rightarrow>
             ((if fullText \<noteq> [] then fullText else TEXT_ERROR_PLACEHOLDER), r2))"

text \<open>The end of the writing sub-step: content and status \<^verbatim>\<open>generating_image\<close> are
  stored and published, the counter is incremented and the progress refreshed.\<close>

definition begin_illustrating :: "nat \<Rightarrow> string \<Rightarrow> Run \<Rightarrow> Run" where
  "begin_illustrating i fullText r =
     (let r1 = publishOutline
                 (r\<lparr>newOutline := (newOutline r)
                       [i := (newOutline r ! i)\<lparr>content := Some fullText,
                                                  chapter_status := Generating_image\<rparr>]\<rparr>);
          r2 = r1\<lparr>completedSteps := completedSteps r1 + 1\<rparr>
      in updateProgress (''Illustrating Chapter '' @ string_of_nat (i + 1) @ ''...'') r2)"

text \<open>The image sub-step of section \<open>i\<close>, with its own \<^verbatim>\<open>try\<close>/\<^verbatim>\<open>catch\<close>: both
  branches set the status to \<^verbatim>\<open>completed\<close>, and only the first sets
  \<^verbatim>\<open>imageUrl\<close>.\<close>

definition image_step :: "Env \<Rightarrow> BookData \<Rightarrow> nat \<Rightarrow> Chapter \<Rightarrow> Run \<Rightarrow> Run" where
  "image_step env bd i chapter r =
     (let n = length (calls r);
          r1 = logCall (ImageCall i) r
      in case generateChapterIllustration env n (chapter_title chapter)
                (style (book_config bd)) (format (book_config bd)) of
           Inr url \<Rightarrow>
             r1\<lparr>newOutline := (newOutline r1)
                   [i := (newOutline r1 ! i)\<lparr>imageUrl := Some url, chapter_status := Completed\<rparr>]\<rparr>
         | Inl e \<Rightarrow>
             r1\<lparr>newOutline := (newOutline r1)
                   [i := (newOutline r1 ! i)\<lparr>chapter_status := Completed\<rparr>]\<rparr>)"

text \<open>The end of an iteration: the outline is published and the counter incremented.\<close>

definition finish_chapter :: "Run \<Rightarrow> Run" where
  "finish_chapter r =
     (let r1 = publishOutline r in r1\<lparr>completedSteps := completedSteps r1 + 1\<rparr>)"

text \<open>One iteration of the loop over the sections, for an index \<open>i\<close> within
  \<^verbatim>\<open>newOutline\<close>.\<close>

definition process_chapter :: "Env \<Rightarrow> BookData \<Rightarrow> nat \<Rightarrow> Run \<Rightarrow> Run" where
  "process_chapter env bd i r =
     (let chapter = newOutline r ! i
      in if skip_rule chapter then r\<lparr>completedSteps := completedSteps r + 2\<rparr>
         else
           (let r1 = begin_writing i chapter r;
                (fullText, r2) = text_step env bd i chapter r1;
                r3 = begin_illustrating i fullText r2;
                r4 = image_step env bd i chapter r3
            in finish_chapter r4))"

text \<open>Field lemmas: what each state operation leaves alone.\<close>

lemma publishOutline_fields [simp]:
  "newOutline (publishOutline r) = newOutline r"
  "completedSteps (publishOutline r) = completedSteps r"
  "totalSteps (publishOutline r) = totalSteps r"
  "calls (publishOutline r) = calls r"
  "status (publishOutline r) = status r"
  "error (publishOutline r) = error r"
  "isApiKeyModalOpen (publishOutline r) = isApiKeyModalOpen r"
  "generationProgress (publishOutline r) = generationProgress r"
  by (simp_all add: publishOutline_def setBookData_def)

lemma updateProgress_fields [simp]:
  "newOutline (updateProgress m r) = newOutline r"
  "completedSteps (updateProgress m r) = completedSteps r"
  "totalSteps (updateProgress m r) = totalSteps r"
  "calls (updateProgress m r) = calls r"
  "status (updateProgress m r) = status r"
  "error (updateProgress m r) = error r"
  "isApiKeyModalOpen (updateProgress m r) = isApiKeyModalOpen r"
  "bookData (updateProgress m r) = bookData r"
  "snapshots (updateProgress m r) = snapshots r"
  by (simp_all add: updateProgress_def)

lemma logCall_fields [simp]:
  "newOutline (logCall c r) = newOutline r"
  "completedSteps (logCall c r) = completedSteps r"
  "totalSteps (logCall c r) = totalSteps r"
  "calls (logCall c r) = calls r @ [c]"
  "status (logCall c r) = status r"
  "error (logCall c r) = error r"
  "isApiKeyModalOpen (logCall c r) = isApiKeyModalOpen r"
  "bookData (logCall c r) = bookData r"
  "snapshots (logCall c r) = snapshots r"
  "generationProgress (logCall c r) = generationProgress r"
  by (simp_all add: logCall_def)

lemma begin_writing_fields [simp]:
  "newOutline (begin_writing i c r) = (newOutline r)[i := c\<lparr>chapter_status := Generating_text\<rparr>]"
  "completedSteps (begin_writing i c r) = completedSteps r"
  "totalSteps (begin_writing i c r) = totalSteps r"
  "calls (begin_writing i c r) = calls r"
  "status (begin_writing i c r) = status r"
  "error (begin_writing i c r) = error r"
  "isApiKeyModalOpen (begin_writing i c r) = isApiKeyModalOpen r"
  by (simp_all add: begin_writing_def)

lemma consume_stream_fields [simp]:
  "completedSteps (snd (consume_stream i fs ft r)) = completedSteps r"
  "totalSteps (snd (consume_stream i fs ft r)) = totalSteps r"
  "calls (snd (consume_stream i fs ft r)) = calls r"
  "status (snd (consume_stream i fs ft r)) = status r"
  "error (snd (consume_stream i fs ft r)) = error r"
  "isApiKeyModalOpen (snd (consume_stream i fs ft r)) = isApiKeyModalOpen r"
  "generationProgress (snd (consume_stream i fs ft r)) = generationProgress r"
  "length (newOutline (snd (consume_stream i fs ft r))) = length (newOutline r)"
  by (induction fs arbitrary: ft r; simp add: Let_def)+

lemma text_step_fields [simp]:
  "completedSteps (snd (text_step env bd i c r)) = completedSteps r"
  "totalSteps (snd (text_step env bd i c r)) = totalSteps r"
  "calls (snd (text_step env bd i c r)) = calls r @ [TextCall i]"
  "status (snd (text_step env bd i c r)) = status r"
  "error (snd (text_step env bd i c r)) = error r"
  "isApiKeyModalOpen (snd (text_step env bd i c r)) = isApiKeyModalOpen r"
  "generationProgress (snd (text_step env bd i c r)) = generationProgress r"
  "length (newOutline (snd (text_step env bd i c r))) = length (newOutline r)"
  by (simp_all add: text_step_def Let_def case_prod_unfold split: option.splits)

lemma begin_illustrating_fields [simp]:
  "newOutline (begin_illustrating i ft r) =
     (newOutline r)[i := (newOutline r ! i)\<lparr>content := Some ft, chapter_status := Generating_image\<rparr>]"
  "completedSteps (begin_illustrating i ft r) = completedSteps r + 1"
  "totalSteps (begin_illustrating i ft r) = totalSteps r"
  "calls (begin_illustrating i ft r) = calls r"
  "status (begin_illustrating i ft r) = status r"
  "error (begin_illustrating i ft r) = error r"
  "isApiKeyModalOpen (begin_illustrating i ft r) = isApiKeyModalOpen r"
  by (simp_all add: begin_illustrating_def Let_def)

lemma image_step_fields [simp]:
  "completedSteps (image_step env bd i c r) = completedSteps r"
  "totalSteps (image_step env bd i c r) = totalSteps r"
  "calls (image_step env bd i c r) = calls r @ [ImageCall i]"
  "status (image_step env bd i c r) = status r"
  "error (image_step env bd i c r) = error r"
  "isApiKeyModalOpen (image_step env bd i c r) = isApiKeyModalOpen r"
  "generationProgress (image_step env bd i c r) = generationProgress r"
  "bookData (image_step env bd i c r) = bookData r"
  "snapshots (image_step env bd i c r) = snapshots r"
  "length (newOutline (image_step env bd i c r)) = length (newOutline r)"
  by (simp_all add: image_step_def Let_def split: sum.splits)

lemma finish_chapter_fields [simp]:
  "newOutline (finish_chapter r) = newOutline r"
  "completedSteps (finish_chapter r) = completedSteps r + 1"
  "totalSteps (finish_chapter r) = totalSteps r"
  "calls (finish_chapter r) = calls r"
  "status (finish_chapter r) = status r"
  "error (finish_chapter r) = error r"
  "isApiKeyModalOpen (finish_chapter r) = isApiKeyModalOpen r"
  "generationProgress (finish_chapter r) = generationProgress r"
  by (simp_all add: finish_chapter_def Let_def)

lemma process_chapter_fields [simp]:
  "completedSteps (process_chapter env bd i r) = completedSteps r + 2"
  "totalSteps (process_chapter env bd i r) = totalSteps r"
  "status (process_chapter env bd i r) = status r"
  "error (process_chapter env bd i r) = error r"
  "isApiKeyModalOpen (process_chapter env bd i r) = isApiKeyModalOpen r"
  "length (newOutline (process_chapter env bd i r)) = length (newOutline r)"
  by (simp_all add: process_chapter_def Let_def case_prod_unfold)

text \<open>The loop \<^verbatim>\<open>for (let i = 0; i < newOutline.length; i++)\<close>, from index \<open>i\<close> on.\<close>

function chapters_loop :: "Env \<Rightarrow> BookData \<Rightarrow> nat \<Rightarrow> Run \<Rightarrow> Run" where
  "chapters_loop env bd i r =
     (if i < length (newOutline r)
      then chapters_loop env bd (Suc i) (process_chapter env bd i r)
      else r)"
  by pat_completeness auto
termination
  by (relation "measure (\<lambda>(env, bd, i, r). length (newOutline r) - i)") auto

declare chapters_loop.simps [simp del]

text \<open>The outer \<^verbatim>\<open>catch (e: any)\<close> block of \<^verbatim>\<open>startFullGeneration\<close>.\<close>

definition generation_failed :: "string \<Rightarrow> Run \<Rightarrow> Run" where
  "generation_failed e_message r =
     r\<lparr>error := Some (if e_message \<noteq> [] then e_message else ''Generation failed midway.''),
       status := ERROR,
       isApiKeyModalOpen := (if js_includes e_message ''API Key'' then True
                             else isApiKeyModalOpen r)\<rparr>"

text \<open>The state a run starts from: the React state, with the locals not yet set.\<close>

definition run_of :: "App \<Rightarrow> Run" where
  "run_of app =
     \<lparr>status = status app, config = config app, bookData = bookData app,
      error = error app, isApiKeyModalOpen = isApiKeyModalOpen app,
      generationProgress = generationProgress app,
      totalSteps = 0, completedSteps = 0, newOutline = [],
      snapshots = [], calls = []\<rparr>"

text \<open>The outer \<^verbatim>\<open>try\<close> block. \<open>Inl\<close> is an exception leaving the block, with the state
  it leaves behind. Every call that can throw sits in a \<^verbatim>\<open>try\<close> of its own inside the
  steps, and nothing between them throws: the block always ends normally.\<close>

definition generation_body :: "Env \<Rightarrow> BookData \<Rightarrow> Run \<Rightarrow> (string \<times> Run) + Run" where
  "generation_body env bd r =
     (let r1 = cover_step env bd r;
          r2 = r1\<lparr>newOutline := outline bd\<rparr>
      in Inr (chapters_loop env bd 0 r2))"

definition startFullGeneration :: "Env \<Rightarrow> App \<Rightarrow> Run" where
  "startFullGeneration env app =
     (case bookData app of
        None \<Rightarrow> run_of app
      | Some bd \<Rightarrow>
          (let r0 = (run_of app)\<lparr>status := GENERATING_BOOK,
                                 totalSteps := 1 + length (outline bd) * 2,
                                 completedSteps := 0\<rparr>
           in case generation_body env bd r0 of
                Inr r1 \<Rightarrow> r1\<lparr>status := COMPLETED\<rparr>
              | Inl (e_message, r1) \<Rightarrow> generation_failed e_message r1))"

section \<open>Phase A: outline synthesis\<close>

text \<open>The global \<^verbatim>\<open>replace\<close> of a literal \<open>pat\<close> followed by an optional line feed, by
  the empty string: every match of \<open>pat\<close>, with the line feed that follows it if there is
  one, is removed; the scan goes on after the match.\<close>

definition drop_newline :: "string \<Rightarrow> string" where
  "drop_newline s = (case s of [] \<Rightarrow> [] | c # r \<Rightarrow> if c = CHR 0x0A then r else s)"

function remove_all :: "string \<Rightarrow> string \<Rightarrow> string" where
  "remove_all pat [] = []"
| "remove_all pat (c # s) =
     (if pat \<noteq> [] \<and> prefix pat (c # s)
      then remove_all pat (drop_newline (drop (length pat) (c # s)))
      else c # remove_all pat s)"
  by pat_completeness auto
termination
proof (relation "measure (\<lambda>(pat, s). length s)")
  show "wf (measure (\<lambda>(pat, s). length s))" by simp
next
  fix pat :: string and c s
  assume "pat \<noteq> [] \<and> prefix pat (c # s)"
  then have a: "length (drop (length pat) (c # s)) < length (c # s)"
    by (cases pat) simp_all
  have "length (drop_newline t) \<le> length t" for t
    by (simp add: drop_newline_def split: list.splits)
  from this [of "drop (length pat) (c # s)"] a
  have "length (drop_newline (drop (length pat) (c # s))) < length (c # s)"
    by (rule le_less_trans)
  then show "((pat, drop_newline (drop (length pat) (c # s))), (pat, c # s))
          \<in> measure (\<lambda>(pat, s). length s)"
    by simp
next
  fix pat :: string and c s
  show "((pat, s), (pat, c # s)) \<in> measure (\<lambda>(pat, s). length s)" by simp
qed

text \<open>\<^verbatim>\<open>s.trim()\<close>, for strings of code units below 256.\<close>

definition is_whitespace :: "char \<Rightarrow> bool" where
  "is_whitespace c \<longleftrightarrow> c \<in> set [CHR 0x09, CHR 0x0A, CHR 0x0B, CHR 0x0C, CHR 0x0D, CHR 0x20, CHR 0xA0]"

definition trim :: "string \<Rightarrow> string" where
  "trim s = rev (dropWhile is_whitespace (rev (dropWhile is_whitespace s)))"

text \<open>\<^verbatim>\<open>a || b\<close> on strings.\<close>

definition str_or :: "string \<Rightarrow> string \<Rightarrow> string" where
  "str_or a b = (if a \<noteq> [] then a else b)"

text \<open>The response text (\<^verbatim>\<open>response.text || ""\<close>) with the opening fences
  \<^verbatim>\<open>```json\<close>, then all remaining fences \<^verbatim>\<open>```\<close>, removed, and trimmed.\<close>

definition clean_response :: "string option \<Rightarrow> string" where
  "clean_response response_text =
     trim (remove_all ''```'' (remove_all ''```json''
       (case response_text of None \<Rightarrow> [] | Some t \<Rightarrow> t)))"

text \<open>\<^verbatim>\<open>generateBookOutline\<close> (services/geminiService.ts). The \<^verbatim>\<open>throw\<close> inside the
  \<^verbatim>\<open>try\<close> is caught by its own \<^verbatim>\<open>catch\<close>, like a syntax error of the parser.\<close>

definition generateBookOutline :: "Env \<Rightarrow> nat \<Rightarrow> BookConfig \<Rightarrow> JsonData result" where
  "generateBookOutline env n cfg =
     (case getClient env of
        Inl e \<Rightarrow> Inl e
      | Inr ai \<Rightarrow>
          (case sdk_text env n (OutlineRequest cfg) of
             Inl e \<Rightarrow> Inl e
           | Inr response_text \<Rightarrow>
               (let text1 = clean_response response_text
                in if text1 = [] then Inl ''No response from AI''
                   else
                     (case (case JSON_parse env text1 of
                              Inl e \<Rightarrow> Inl e
                            | Inr d \<Rightarrow>
                                if d = Falsy \<or> data_chapters d = None
                                then Inl ''Invalid structure: 'chapters' array missing''
                                else Inr d) of
                        Inl e \<Rightarrow> Inl ''Failed to parse outline.''
                      | Inr d \<Rightarrow> Inr d))))"

text \<open>\<^verbatim>\<open>{ id: `chap-${i}`, ...c, status: 'pending' }\<close>\<close>

definition new_chapter :: "nat \<Rightarrow> OutlineChapter \<Rightarrow> Chapter" where
  "new_chapter i c =
     \<lparr>chapter_id = ''chap-'' @ string_of_nat i, chapter_title = oc_title c,
      description = oc_description c, content = oc_content c, imageUrl = oc_imageUrl c,
      chapter_status = Pending\<rparr>"

text \<open>\<^verbatim>\<open>startOutlineGeneration\<close> (App.tsx): the state while the outline is awaited, the
  \<^verbatim>\<open>catch\<close> block, the \<^verbatim>\<open>try\<close> block, and the whole. \<open>now\<close> is the time stamp of
  \<^verbatim>\<open>new Date()\<close>.\<close>

definition outline_started :: "App \<Rightarrow> App" where
  "outline_started app = app\<lparr>status := GENERATING_OUTLINE, error := None\<rparr>"

definition outline_failed :: "string \<Rightarrow> App \<Rightarrow> App" where
  "outline_failed e_message app =
     app\<lparr>error := Some (str_or e_message ''Failed to generate outline.''),
         status := IDLE,
         isApiKeyModalOpen := (if js_includes e_message ''API Key'' then True
                               else isApiKeyModalOpen app)\<rparr>"

definition outline_body :: "Env \<Rightarrow> nat \<Rightarrow> App \<Rightarrow> string + App" where
  "outline_body env now app =
     (case generateBookOutline env 0 (config app) of
        Inl e \<Rightarrow> Inl e
      | Inr outlineData \<Rightarrow>
          (case data_chapters outlineData of
             None \<Rightarrow> Inl ''Invalid response format: Chapters missing''
           | Some cs \<Rightarrow>
               (let chapters = map (\<lambda>(i, c). new_chapter i c) (enumerate 0 cs);
                    finalTitle = str_or (case data_title outlineData of None \<Rightarrow> [] | Some t \<Rightarrow> t)
                                   (str_or (title (config app)) (topic (config app)))
                in Inr (app\<lparr>bookData := Some \<lparr>book_config = (config app)\<lparr>title := finalTitle\<rparr>,
                                                coverImage = None, outline = chapters,
                                                generatedAt = now\<rparr>,
                            status := REVIEWING_OUTLINE\<rparr>))))"

definition startOutlineGeneration :: "Env \<Rightarrow> nat \<Rightarrow> App \<Rightarrow> App" where
  "startOutlineGeneration env now app =
     (if topic (config app) = [] then app
      else (let app1 = outline_started app
            in case outline_body env now app1 of
                 Inr app2 \<Rightarrow> app2
               | Inl e \<Rightarrow> outline_failed e app1))"

section \<open>The handlers of the review and of the reader\<close>

text \<open>\<^verbatim>\<open>handleUpdateChapter\<close> is called with the index of a row of the outline. For an
  index outside the outline, JavaScript would store an object with the one field only, which
  is no \<^verbatim>\<open>Chapter\<close>: the model returns \<open>None\<close> there.\<close>

datatype ChapterField = Title_field | Description_field

definition handleUpdateChapter :: "nat \<Rightarrow> ChapterField \<Rightarrow> string \<Rightarrow> App \<Rightarrow> App option" where
  "handleUpdateChapter index field v app =
     (case bookData app of
        None \<Rightarrow> Some app
      | Some bd \<Rightarrow>
          if index < length (outline bd)
          then Some (app\<lparr>bookData := Some (bd\<lparr>outline := (outline bd)
                  [index := (case field of
                               Title_field \<Rightarrow> (outline bd ! index)\<lparr>chapter_title := v\<rparr>
                             | Description_field \<Rightarrow> (outline bd ! index)\<lparr>description := v\<rparr>)]\<rparr>)\<rparr>)
          else None)"

definition handleAddChapter :: "nat \<Rightarrow> App \<Rightarrow> App" where
  "handleAddChapter now app =
     (case bookData app of
        None \<Rightarrow> app
      | Some bd \<Rightarrow>
          (let newChapter =
                 \<lparr>chapter_id = ''chap-'' @ string_of_nat (length (outline bd)) @ ''-'' @ string_of_nat now,
                  chapter_title = ''New Chapter'',
                  description = ''Description of the new chapter'',
                  content = None, imageUrl = None, chapter_status = Pending\<rparr>
           in app\<lparr>bookData := Some (bd\<lparr>outline := outline bd @ [newChapter]\<rparr>)\<rparr>))"

definition handleRemoveChapter :: "nat \<Rightarrow> App \<Rightarrow> App" where
  "handleRemoveChapter index app =
     (case bookData app of
        None \<Rightarrow> app
      | Some bd \<Rightarrow>
          app\<lparr>bookData := Some (bd\<lparr>outline :=
                 map snd (filter (\<lambda>(i, c). i \<noteq> index) (enumerate 0 (outline bd)))\<rparr>)\<rparr>)"

definition handleUpdateBookContent :: "string \<Rightarrow> string \<Rightarrow> App \<Rightarrow> App" where
  "handleUpdateBookContent chapterId newContent app =
     (case bookData app of
        None \<Rightarrow> app
      | Some bd \<Rightarrow>
          app\<lparr>bookData := Some (bd\<lparr>outline :=
                 map (\<lambda>c. if chapter_id c = chapterId then c\<lparr>content := Some newContent\<rparr> else c)
                     (outline bd)\<rparr>)\<rparr>)"

definition handleUpdateBookImage :: "string \<Rightarrow> string \<Rightarrow> App \<Rightarrow> App" where
  "handleUpdateBookImage chapterId newImageUrl app =
     (case bookData app of
        None \<Rightarrow> app
      | Some bd \<Rightarrow>
          app\<lparr>bookData := Some (bd\<lparr>outline :=
                 map (\<lambda>c. if chapter_id c = chapterId then c\<lparr>imageUrl := Some newImageUrl\<rparr> else c)
                     (outline bd)\<rparr>)\<rparr>)"

definition INITIAL_CONFIG :: BookConfig where
  "INITIAL_CONFIG =
     \<lparr>topic = [], title = [], authorName = [], audience = ''General Reader'',
      tone = ''Informative & Engaging'', enableSearch = True, style = ''Modern Minimalist'',
      chapterCount = 5, format = Ebook\<rparr>"

definition initial_app :: App where
  "initial_app =
     \<lparr>status = IDLE, config = INITIAL_CONFIG, bookData = None, error = None,
      isApiKeyModalOpen = False,
      generationProgress = \<lparr>current = 0, total = 0, message = []\<rparr>\<rparr>"

definition reset :: "App \<Rightarrow> App" where
  "reset app = app\<lparr>status := IDLE, bookData := None, config := INITIAL_CONFIG, error := None\<rparr>"


section \<open>Export pagination: \<^verbatim>\<open>handleDownloadPdf\<close> (components/BookReader.tsx)\<close>

subsection \<open>JavaScript numbers\<close>

text \<open>Lengths are JavaScript numbers: IEEE 754 binary64 values. A finite one is given by the
  rational it denotes, and every arithmetic operation rounds its exact result to the nearest
  double, a tie to the one with the even significand. The two zeros are read as one: the code
  below compares numbers and divides by a pixel count only, which is never the negative zero,
  so nothing it does tells them apart.\<close>

datatype number = Finite rat | PosInf | NegInf | NaN

text \<open>The binade of a positive rational \<open>x\<close> is the \<open>e\<close> with \<open>2^e \<le> x < 2^(e+1)\<close>, found by
  halving or doubling.\<close>

function exponent_up :: "rat \<Rightarrow> nat" where
  "exponent_up x = (if 2 \<le> x then Suc (exponent_up (x / 2)) else 0)"
  by pat_completeness auto
termination
proof (relation "measure (\<lambda>x. nat \<lfloor>x\<rfloor>)")
  show "wf (measure (\<lambda>x::rat. nat \<lfloor>x\<rfloor>))" by simp
next
  fix x :: rat
  assume x: "2 \<le> x"
  then have k: "1 \<le> \<lfloor>x\<rfloor>" by simp
  have "x < of_int \<lfloor>x\<rfloor> + 1" by linarith
  moreover have "(1::rat) \<le> of_int \<lfloor>x\<rfloor>" using k by simp
  ultimately have "x / 2 < of_int \<lfloor>x\<rfloor>" by linarith
  then have "\<lfloor>x / 2\<rfloor> < \<lfloor>x\<rfloor>" by (simp add: floor_less_iff)
  with k show "(x / 2, x) \<in> measure (\<lambda>x. nat \<lfloor>x\<rfloor>)" by simp
qed

function exponent_down :: "rat \<Rightarrow> nat" where
  "exponent_down x = (if 0 < x \<and> x < 1 then Suc (exponent_down (2 * x)) else 0)"
  by pat_completeness auto
termination
proof (relation "measure (\<lambda>x. nat \<lfloor>1 / x\<rfloor>)")
  show "wf (measure (\<lambda>x::rat. nat \<lfloor>1 / x\<rfloor>))" by simp
next
  fix x :: rat
  assume x: "0 < x \<and> x < 1"
  define y where "y = 1 / x"
  have k: "1 \<le> \<lfloor>y\<rfloor>" using x by (simp add: y_def)
  have "y < of_int \<lfloor>y\<rfloor> + 1" by linarith
  moreover have "(1::rat) \<le> of_int \<lfloor>y\<rfloor>" using k by simp
  ultimately have "y / 2 < of_int \<lfloor>y\<rfloor>" by linarith
  then have h: "\<lfloor>y / 2\<rfloor> < \<lfloor>y\<rfloor>" by (simp only: floor_less_iff)
  have e: "1 / (2 * x) = y / 2" by (simp add: y_def)
  have "\<lfloor>1 / (2 * x)\<rfloor> < \<lfloor>1 / x\<rfloor>"
    unfolding e unfolding y_def [symmetric] by (rule h)
  moreover have "1 \<le> \<lfloor>1 / x\<rfloor>" using k by (simp only: y_def)
  ultimately show "(2 * x, x) \<in> measure (\<lambda>x. nat \<lfloor>1 / x\<rfloor>)" by simp
qed

declare exponent_up.simps [simp del] exponent_down.simps [simp del]

definition binade :: "rat \<Rightarrow> int" where
  "binade x = (if 1 \<le> x then int (exponent_up x) else - int (exponent_down x))"

text \<open>Rounding to the nearest integer, a tie to the even one; and rounding to the nearest
  double. A double of binade \<open>e\<close> is a multiple of \<open>2^(e - 52)\<close>, and no binade is below -1022
  (the subnormal numbers are the multiples of \<open>2^-1074\<close>); a result that rounds to \<open>2^1024\<close> or
  more is infinite.\<close>

definition round_even :: "rat \<Rightarrow> int" where
  "round_even m =
     (let f = \<lfloor>m\<rfloor>; r = m - of_int f
      in if r < 1 / 2 then f else if 1 / 2 < r then f + 1 else if even f then f else f + 1)"

definition round64 :: "rat \<Rightarrow> number" where
  "round64 x =
     (if x = 0 then Finite 0
      else
        (let a = \<bar>x\<bar>;
             e = max (binade a) (- 1022);
             ulp = power_int 2 (e - 52);
             y = of_int (round_even (a / ulp)) * ulp
         in if power_int 2 1024 \<le> y then (if 0 < x then PosInf else NegInf)
            else Finite (if 0 < x then y else - y)))"

text \<open>The operations \<^verbatim>\<open>-x\<close>, \<^verbatim>\<open>+\<close>, \<^verbatim>\<open>-\<close>, \<^verbatim>\<open>*\<close>, \<^verbatim>\<open>/\<close>, \<^verbatim>\<open><=\<close> and \<^verbatim>\<open><\<close> on numbers. A division by
  zero gives an infinity of the sign of the dividend, and no number for the dividend zero;
  a comparison with no number is false.\<close>

fun nneg :: "number \<Rightarrow> number" where
  "nneg (Finite x) = Finite (- x)"
| "nneg PosInf = NegInf"
| "nneg NegInf = PosInf"
| "nneg NaN = NaN"

fun nadd :: "number \<Rightarrow> number \<Rightarrow> number" where
  "nadd (Finite x) (Finite y) = round64 (x + y)"
| "nadd NaN b = NaN"
| "nadd a NaN = NaN"
| "nadd PosInf NegInf = NaN"
| "nadd NegInf PosInf = NaN"
| "nadd PosInf b = PosInf"
| "nadd a PosInf = PosInf"
| "nadd NegInf b = NegInf"
| "nadd a NegInf = NegInf"

definition nsub :: "number \<Rightarrow> number \<Rightarrow> number" where
  "nsub a b = nadd a (nneg b)"

fun nsign :: "number \<Rightarrow> rat" where
  "nsign (Finite x) = sgn x"
| "nsign PosInf = 1"
| "nsign NegInf = - 1"
| "nsign NaN = 0"

definition signed_inf :: "rat \<Rightarrow> number" where
  "signed_inf s = (if s = 0 then NaN else if 0 < s then PosInf else NegInf)"

fun nmul :: "number \<Rightarrow> number \<Rightarrow> number" where
  "nmul (Finite x) (Finite y) = round64 (x * y)"
| "nmul a b = signed_inf (nsign a * nsign b)"

fun ndiv :: "number \<Rightarrow> number \<Rightarrow> number" where
  "ndiv (Finite x) (Finite y) = (if y = 0 then signed_inf (sgn x) else round64 (x / y))"
| "ndiv NaN b = NaN"
| "ndiv a NaN = NaN"
| "ndiv (Finite x) b = Finite 0"
| "ndiv a (Finite y) = signed_inf (nsign a * (if y < 0 then - 1 else 1))"
| "ndiv a b = NaN"

fun nle :: "number \<Rightarrow> number \<Rightarrow> bool" where
  "nle (Finite x) (Finite y) = (x \<le> y)"
| "nle NaN b = False"
| "nle a NaN = False"
| "nle NegInf b = True"
| "nle a PosInf = True"
| "nle a b = False"

fun nless :: "number \<Rightarrow> number \<Rightarrow> bool" where
  "nless (Finite x) (Finite y) = (x < y)"
| "nless (Finite x) PosInf = True"
| "nless NegInf (Finite y) = True"
| "nless NegInf PosInf = True"
| "nless a b = False"

text \<open>A pixel count as a number.\<close>

definition num :: "nat \<Rightarrow> number" where
  "num n = round64 (of_nat n)"

subsection \<open>The export\<close>

text \<open>The document is the sequence of drawing commands given to the PDF library:
  \<^verbatim>\<open>pdf.addPage()\<close>, which opens a new page, and
  \<^verbatim>\<open>pdf.addImage(imgData, 'JPEG', x, y, w, h)\<close>, which draws image \<open>imgData\<close> (here the index
  of the section it was rendered from) on the open page. What the library does with an
  argument that is not finite is not part of the model.\<close>

datatype PdfOp = AddPage | AddImage nat number number number number

text \<open>The loop \<^verbatim>\<open>while (heightLeft > 0)\<close> for a long section; each round computes
  \<^verbatim>\<open>pdfHeight - (margin*2)\<close> anew. The loop need not end (a content height of zero or less,
  or a height left so large that the subtraction rounds back to it, keeps it running): the
  result is an option, \<open>None\<close> for a loop that never ends.\<close>

partial_function (option) split_pages ::
  "number \<Rightarrow> number \<Rightarrow> number \<Rightarrow> nat \<Rightarrow> number \<Rightarrow> number \<Rightarrow> number \<Rightarrow> bool \<Rightarrow> PdfOp list
     \<Rightarrow> PdfOp list option" where
  "split_pages pdfHeight margin contentWidth img imgHeight heightLeft position pageAdded ops =
     (if nless (Finite 0) heightLeft
      then split_pages pdfHeight margin contentWidth img imgHeight
             (nsub heightLeft (nsub pdfHeight (nmul margin (Finite 2))))
             (nsub position (nsub pdfHeight (nmul margin (Finite 2))))
             True
             (ops @ (if pageAdded then [AddPage] else [])
                  @ [AddImage img margin (nadd margin position) contentWidth imgHeight])
      else Some ops)"

text \<open>The size in pixels of the rendered bitmap of a section
  (\<^verbatim>\<open>pdf.getImageProperties(imgData)\<close>), and its height once scaled to the content width:
  \<^verbatim>\<open>(imgProps.height * contentWidth) / imgProps.width\<close>, rounded after the product and after
  the quotient.\<close>

record Bitmap =
  bitmap_width :: nat
  bitmap_height :: nat

definition scaled_height :: "number \<Rightarrow> Bitmap \<Rightarrow> number" where
  "scaled_height contentWidth imgProps =
     ndiv (nmul (num (bitmap_height imgProps)) contentWidth) (num (bitmap_width imgProps))"

text \<open>One round of the loop over the sections, and the loop. \<open>pdfWidth\<close> and
  \<open>pdfHeight\<close> are what the PDF library reports for the page, and \<open>sections\<close> are the
  bitmaps the rendering of the sections gives, cover first. (The guard on the print
  container, the busy flag and the \<^verbatim>\<open>catch\<close> that reports a failed rendering concern the
  page only and are left out.)\<close>

definition render_section ::
  "number \<Rightarrow> number \<Rightarrow> nat \<Rightarrow> Bitmap \<Rightarrow> PdfOp list \<Rightarrow> PdfOp list option" where
  "render_section pdfWidth pdfHeight i imgProps ops =
     (let margin = Finite 10;
          contentWidth = nsub pdfWidth (nmul margin (Finite 2));
          ops1 = ops @ (if i > 0 then [AddPage] else []);
          imgHeight = scaled_height contentWidth imgProps
      in if nle imgHeight pdfHeight
         then Some (ops1 @ [AddImage i margin margin contentWidth imgHeight])
         else split_pages pdfHeight margin contentWidth i imgHeight imgHeight (Finite 0) False ops1)"

fun render_sections ::
  "number \<Rightarrow> number \<Rightarrow> nat \<Rightarrow> Bitmap list \<Rightarrow> PdfOp list \<Rightarrow> PdfOp list option" where
  "render_sections pdfWidth pdfHeight i [] ops = Some ops"
| "render_sections pdfWidth pdfHeight i (imgProps # rest) ops =
     (case render_section pdfWidth pdfHeight i imgProps ops of
        None \<Rightarrow> None
      | Some ops' \<Rightarrow> render_sections pdfWidth pdfHeight (Suc i) rest ops')"

definition handleDownloadPdf :: "number \<Rightarrow> number \<Rightarrow> Bitmap list \<Rightarrow> PdfOp list option" where
  "handleDownloadPdf pdfWidth pdfHeight sections = render_sections pdfWidth pdfHeight 0 sections []"

section \<open>What one iteration does\<close>

text \<open>The successive values of \<^verbatim>\<open>fullText\<close> while the fragments \<open>fs\<close> arrive, starting
  from \<open>ft\<close>.\<close>

fun stream_contents :: "string \<Rightarrow> string list \<Rightarrow> string list" where
  "stream_contents ft [] = []"
| "stream_contents ft (f # fs) = (ft @ f) # stream_contents (ft @ f) fs"

text \<open>The value of \<^verbatim>\<open>fullText\<close> after the \<^verbatim>\<open>try\<close>/\<^verbatim>\<open>catch\<close> around a stream that
  yields \<open>fragments\<close> and then ends (\<open>None\<close>) or fails.\<close>

definition text_result :: "string list \<times> string option \<Rightarrow> string" where
  "text_result s =
     (case s of (fragments, failure) \<Rightarrow>
        (case failure of
           None \<Rightarrow> concat fragments
         | Some e \<Rightarrow> if concat fragments \<noteq> [] then concat fragments else TEXT_ERROR_PLACEHOLDER))"

text \<open>The stream and the illustration the service returns to the iteration for section
  \<open>i\<close> that starts in state \<open>r\<close>, and the section that iteration leaves behind.\<close>

definition stream_at :: "Env \<Rightarrow> BookData \<Rightarrow> nat \<Rightarrow> Run \<Rightarrow> string list \<times> string option" where
  "stream_at env bd i r =
     generateChapterContentStream env (length (calls r)) (newOutline r ! i)
       (title (book_config bd)) (book_config bd) (prevContext i (newOutline r))"

definition image_at :: "Env \<Rightarrow> BookData \<Rightarrow> nat \<Rightarrow> Run \<Rightarrow> string result" where
  "image_at env bd i r =
     generateChapterIllustration env (Suc (length (calls r))) (chapter_title (newOutline r ! i))
       (style (book_config bd)) (format (book_config bd))"

definition section_result :: "Chapter \<Rightarrow> string list \<times> string option \<Rightarrow> string result \<Rightarrow> Chapter" where
  "section_result c stream img =
     c\<lparr>content := Some (text_result stream),
       imageUrl := (case img of Inr url \<Rightarrow> Some url | Inl e \<Rightarrow> imageUrl c),
       chapter_status := Completed\<rparr>"

lemma consume_stream_fst [simp]: "fst (consume_stream i fs ft r) = ft @ concat fs"
  by (induction fs arbitrary: ft r) (simp_all add: Let_def)

lemma publishOutline_bookData:
  "bookData r = Some p \<Longrightarrow> bookData (publishOutline r) = Some (p\<lparr>outline := newOutline r\<rparr>)"
  "bookData r = Some p \<Longrightarrow>
     snapshots (publishOutline r) = snapshots r @ [Some (p\<lparr>outline := newOutline r\<rparr>)]"
  by (simp_all add: publishOutline_def setBookData_def)

lemma consume_stream_newOutline:
  assumes "i < length (newOutline r)"
  shows "newOutline (snd (consume_stream i fs ft r)) =
     (if fs = [] then newOutline r
      else (newOutline r)[i := (newOutline r ! i)\<lparr>content := Some (ft @ concat fs)\<rparr>])"
  using assms
proof (induction fs arbitrary: ft r)
  case Nil
  show ?case by simp
next
  case (Cons f fs)
  then show ?case by (simp add: Let_def)
qed

lemma consume_stream_snapshots:
  assumes "bookData r = Some p" and "i < length (newOutline r)"
  shows "snapshots (snd (consume_stream i fs ft r)) =
           snapshots r @
           map (\<lambda>t. Some (p\<lparr>outline := (newOutline r)[i := (newOutline r ! i)\<lparr>content := Some t\<rparr>]\<rparr>))
               (stream_contents ft fs)"
  using assms
proof (induction fs arbitrary: ft r p)
  case Nil
  show ?case by simp
next
  case (Cons f fs)
  let ?r1 = "r\<lparr>newOutline := (newOutline r)[i := (newOutline r ! i)\<lparr>content := Some (ft @ f)\<rparr>]\<rparr>"
  have b: "bookData (publishOutline ?r1) = Some (p\<lparr>outline := newOutline ?r1\<rparr>)"
    using Cons.prems by (simp add: publishOutline_bookData)
  have l: "i < length (newOutline (publishOutline ?r1))"
    using Cons.prems by simp
  show ?case
    using Cons.prems
    by (simp add: Let_def Cons.IH [OF b l] publishOutline_bookData)
qed

lemma consume_stream_bookData:
  assumes "bookData r = Some p"
  shows "bookData (snd (consume_stream i fs ft r)) =
           (if fs = [] then Some p
            else Some (p\<lparr>outline := newOutline (snd (consume_stream i fs ft r))\<rparr>))"
  using assms
proof (induction fs arbitrary: ft r p)
  case Nil
  then show ?case by simp
next
  case (Cons f fs)
  let ?r1 = "r\<lparr>newOutline := (newOutline r)[i := (newOutline r ! i)\<lparr>content := Some (ft @ f)\<rparr>]\<rparr>"
  have b: "bookData (publishOutline ?r1) = Some (p\<lparr>outline := newOutline ?r1\<rparr>)"
    using Cons.prems by (simp add: publishOutline_bookData)
  show ?case
    using Cons.IH [OF b, of "ft @ f"]
    by (cases "fs = []") (simp_all add: Let_def b)
qed

lemma begin_writing_bookData:
  assumes "bookData r = Some p"
  shows "bookData (begin_writing i c r) =
           Some (p\<lparr>outline := (newOutline r)[i := c\<lparr>chapter_status := Generating_text\<rparr>]\<rparr>)"
    and "snapshots (begin_writing i c r) =
           snapshots r @ [Some (p\<lparr>outline := (newOutline r)[i := c\<lparr>chapter_status := Generating_text\<rparr>]\<rparr>)]"
  using assms by (simp_all add: begin_writing_def publishOutline_bookData)

lemma text_step_eq:
  assumes "generateChapterContentStream env (length (calls r)) c (title (book_config bd))
             (book_config bd) (prevContext i (newOutline r)) = (fs, failure)"
  shows "text_step env bd i c r =
           (text_result (fs, failure), snd (consume_stream i fs [] (logCall (TextCall i) r)))"
  unfolding text_step_def Let_def assms text_result_def
  by (cases failure) (simp_all add: case_prod_unfold)

lemma begin_illustrating_bookData:
  assumes "bookData r = Some p"
  shows "bookData (begin_illustrating i ft r) =
           Some (p\<lparr>outline := newOutline (begin_illustrating i ft r)\<rparr>)"
    and "snapshots (begin_illustrating i ft r) =
           snapshots r @ [Some (p\<lparr>outline := newOutline (begin_illustrating i ft r)\<rparr>)]"
    and "generationProgress (begin_illustrating i ft r) =
           \<lparr>current = completedSteps r + 1, total = totalSteps r,
            message = ''Illustrating Chapter '' @ string_of_nat (i + 1) @ ''...''\<rparr>"
  using assms
  by (simp_all add: begin_illustrating_def Let_def publishOutline_bookData updateProgress_def)

lemma image_step_newOutline:
  assumes "i < length (newOutline r)"
  shows "newOutline (image_step env bd i c r) =
     (newOutline r)[i := (newOutline r ! i)
        \<lparr>imageUrl := (case generateChapterIllustration env (length (calls r)) (chapter_title c)
                          (style (book_config bd)) (format (book_config bd)) of
                        Inr url \<Rightarrow> Some url | Inl e \<Rightarrow> imageUrl (newOutline r ! i)),
         chapter_status := Completed\<rparr>]"
  by (simp add: image_step_def Let_def split: sum.splits)

lemma finish_chapter_bookData:
  assumes "bookData r = Some p"
  shows "bookData (finish_chapter r) = Some (p\<lparr>outline := newOutline r\<rparr>)"
    and "snapshots (finish_chapter r) = snapshots r @ [Some (p\<lparr>outline := newOutline r\<rparr>)]"
  using assms by (simp_all add: finish_chapter_def Let_def publishOutline_bookData)

lemma prevContext_update [simp]: "prevContext i (xs[i := c]) = prevContext i xs"
  by (simp add: prevContext_def)


lemma Chapter_update_order [simp]:
  "c\<lparr>chapter_status := s, content := t\<rparr> = c\<lparr>content := t, chapter_status := s\<rparr>"
  "c\<lparr>chapter_status := s, imageUrl := u\<rparr> = c\<lparr>imageUrl := u, chapter_status := s\<rparr>"
  "c\<lparr>imageUrl := u, content := t\<rparr> = c\<lparr>content := t, imageUrl := u\<rparr>"
  by (cases c; simp)+

lemma process_chapter_skipped:
  "skip_rule (newOutline r ! i) \<Longrightarrow>
     process_chapter env bd i r = r\<lparr>completedSteps := completedSteps r + 2\<rparr>"
  by (simp add: process_chapter_def)

lemma process_chapter_not_skipped:
  assumes i: "i < length (newOutline r)"
      and ns: "\<not> skip_rule (newOutline r ! i)"
      and b: "bookData r = Some p"
      and s: "stream_at env bd i r = (fs, failure)"
  defines "c \<equiv> newOutline r ! i"
  defines "res \<equiv> section_result c (fs, failure) (image_at env bd i r)"
  shows "newOutline (process_chapter env bd i r) = (newOutline r)[i := res]"
    and "bookData (process_chapter env bd i r) = Some (p\<lparr>outline := (newOutline r)[i := res]\<rparr>)"
    and "calls (process_chapter env bd i r) = calls r @ [TextCall i, ImageCall i]"
    and "snapshots (process_chapter env bd i r) =
           snapshots r
           @ [Some (p\<lparr>outline := (newOutline r)[i := c\<lparr>chapter_status := Generating_text\<rparr>]\<rparr>)]
           @ map (\<lambda>t. Some (p\<lparr>outline := (newOutline r)
                     [i := c\<lparr>content := Some t, chapter_status := Generating_text\<rparr>]\<rparr>))
                 (stream_contents [] fs)
           @ [Some (p\<lparr>outline := (newOutline r)
                     [i := c\<lparr>content := Some (text_result (fs, failure)),
                             chapter_status := Generating_image\<rparr>]\<rparr>),
              Some (p\<lparr>outline := (newOutline r)[i := res]\<rparr>)]"
    and "generationProgress (process_chapter env bd i r) =
           \<lparr>current = completedSteps r + 1, total = totalSteps r,
            message = ''Illustrating Chapter '' @ string_of_nat (i + 1) @ ''...''\<rparr>"
proof -
  let ?xs = "newOutline r"
  define r1 where "r1 = begin_writing i c r"
  define r2 where "r2 = snd (consume_stream i fs [] (logCall (TextCall i) r1))"
  define r3 where "r3 = begin_illustrating i (text_result (fs, failure)) r2"
  define r4 where "r4 = image_step env bd i c r3"
  have s1: "generateChapterContentStream env (length (calls r1)) c (title (book_config bd))
              (book_config bd) (prevContext i (newOutline r1)) = (fs, failure)"
    using s by (simp add: r1_def stream_at_def c_def)
  have ts: "text_step env bd i c r1 = (text_result (fs, failure), r2)"
    unfolding r2_def by (rule text_step_eq [OF s1])
  have pc: "process_chapter env bd i r = finish_chapter r4"
    using ns ts by (simp add: process_chapter_def Let_def r1_def r3_def r4_def c_def)
  have b1: "bookData r1 = Some (p\<lparr>outline := ?xs[i := c\<lparr>chapter_status := Generating_text\<rparr>]\<rparr>)"
    and sn1: "snapshots r1 = snapshots r @ [Some (p\<lparr>outline := ?xs[i := c\<lparr>chapter_status := Generating_text\<rparr>]\<rparr>)]"
    and n1: "newOutline r1 = ?xs[i := c\<lparr>chapter_status := Generating_text\<rparr>]"
    unfolding r1_def using b by (simp_all add: begin_writing_bookData)
  have i1: "i < length (newOutline (logCall (TextCall i) r1))"
    using i by (simp add: n1)
  have n2: "newOutline r2 =
              (if fs = [] then ?xs[i := c\<lparr>chapter_status := Generating_text\<rparr>]
               else ?xs[i := c\<lparr>content := Some (concat fs), chapter_status := Generating_text\<rparr>])"
    unfolding r2_def using i by (simp add: consume_stream_newOutline [OF i1] n1)
  have q: "bookData r2 = Some (p\<lparr>outline := newOutline r2\<rparr>)"
    using consume_stream_bookData [of "logCall (TextCall i) r1" _ i fs "[]"] b1
    by (simp add: r2_def [symmetric] n2)
  define q where "q = p\<lparr>outline := newOutline r2\<rparr>"
  note q = q [folded q_def]
  have sn2: "snapshots r2 = snapshots r1 @
          map (\<lambda>t. Some (p\<lparr>outline := ?xs[i := c\<lparr>content := Some t, chapter_status := Generating_text\<rparr>]\<rparr>))
              (stream_contents [] fs)"
    unfolding r2_def using i
    by (simp add: consume_stream_snapshots [OF _ i1, of "p\<lparr>outline := ?xs[i := c\<lparr>chapter_status := Generating_text\<rparr>]\<rparr>"] b1 n1)
  have i2: "i < length (newOutline r2)"
    using i by (simp add: r2_def n1)
  have n3: "newOutline r3 = ?xs[i := c\<lparr>content := Some (text_result (fs, failure)),
                                        chapter_status := Generating_image\<rparr>]"
    using i by (simp add: r3_def n2)
  have b3: "bookData r3 = Some (q\<lparr>outline := newOutline r3\<rparr>)"
    and sn3: "snapshots r3 = snapshots r2 @ [Some (q\<lparr>outline := newOutline r3\<rparr>)]"
    and g3: "generationProgress r3 =
           \<lparr>current = completedSteps r + 1, total = totalSteps r,
            message = ''Illustrating Chapter '' @ string_of_nat (i + 1) @ ''...''\<rparr>"
    unfolding r3_def using begin_illustrating_bookData [OF q]
    by (simp_all add: r2_def r1_def)
  have i3: "i < length (newOutline r3)"
    using i by (simp add: n3)
  have c3: "calls r3 = calls r @ [TextCall i]"
    by (simp add: r3_def r2_def r1_def)
  have n4: "newOutline r4 = ?xs[i := res]"
    unfolding r4_def using i
    by (simp add: image_step_newOutline [OF i3] n3 c3 res_def section_result_def image_at_def c_def
          split: sum.splits)
  show "newOutline (process_chapter env bd i r) = (newOutline r)[i := res]"
    by (simp add: pc n4)
  show "calls (process_chapter env bd i r) = calls r @ [TextCall i, ImageCall i]"
    by (simp add: pc r4_def c3)
  have b4: "bookData r4 = Some (q\<lparr>outline := newOutline r3\<rparr>)"
    by (simp add: r4_def b3)
  show "generationProgress (process_chapter env bd i r) =
           \<lparr>current = completedSteps r + 1, total = totalSteps r,
            message = ''Illustrating Chapter '' @ string_of_nat (i + 1) @ ''...''\<rparr>"
    by (simp add: pc r4_def g3)
  show "bookData (process_chapter env bd i r) = Some (p\<lparr>outline := (newOutline r)[i := res]\<rparr>)"
    by (simp add: pc finish_chapter_bookData [OF b4] n4 q_def)
  show "snapshots (process_chapter env bd i r) =
           snapshots r
           @ [Some (p\<lparr>outline := (newOutline r)[i := c\<lparr>chapter_status := Generating_text\<rparr>]\<rparr>)]
           @ map (\<lambda>t. Some (p\<lparr>outline := (newOutline r)
                     [i := c\<lparr>content := Some t, chapter_status := Generating_text\<rparr>]\<rparr>))
                 (stream_contents [] fs)
           @ [Some (p\<lparr>outline := (newOutline r)
                     [i := c\<lparr>content := Some (text_result (fs, failure)),
                             chapter_status := Generating_image\<rparr>]\<rparr>),
              Some (p\<lparr>outline := (newOutline r)[i := res]\<rparr>)]"
  proof -
    have sn4: "snapshots r4 = snapshots r3"
      by (simp add: r4_def)
    show ?thesis
      by (simp add: pc finish_chapter_bookData [OF b4] n4 q_def sn4 sn3 sn2 sn1 n3)
  qed
qed

section \<open>What a run does\<close>

text \<open>The state in which the loop over the sections starts: after the cover step, with
  \<^verbatim>\<open>newOutline\<close> a copy of the outline.\<close>

definition loop_entry :: "Env \<Rightarrow> App \<Rightarrow> BookData \<Rightarrow> Run" where
  "loop_entry env app bd =
     (cover_step env bd
        ((run_of app)\<lparr>status := GENERATING_BOOK,
                       totalSteps := 1 + length (outline bd) * 2,
                       completedSteps := 0\<rparr>))\<lparr>newOutline := outline bd\<rparr>"

text \<open>The state in which the iteration for section \<open>k\<close> starts.\<close>

definition before_section :: "Env \<Rightarrow> App \<Rightarrow> BookData \<Rightarrow> nat \<Rightarrow> Run" where
  "before_section env app bd k = fold (process_chapter env bd) [0..<k] (loop_entry env app bd)"

text \<open>The cover the run leaves, and the service calls of the cover step and of the
  iteration for section \<open>k\<close>.\<close>

definition cover_after :: "Env \<Rightarrow> BookData \<Rightarrow> string option" where
  "cover_after env bd =
     (if truthy (coverImage bd) then coverImage bd
      else case generateBookCover env 0 (title (book_config bd)) (style (book_config bd))
                  (format (book_config bd)) of
             Inr coverUrl \<Rightarrow> Some coverUrl
           | Inl e \<Rightarrow> coverImage bd)"

definition cover_calls :: "BookData \<Rightarrow> Call list" where
  "cover_calls bd = (if truthy (coverImage bd) then [] else [CoverCall])"

definition section_calls :: "BookData \<Rightarrow> nat \<Rightarrow> Call list" where
  "section_calls bd k = (if skip_rule (outline bd ! k) then [] else [TextCall k, ImageCall k])"

text \<open>What the service returns for section \<open>k\<close> in the run from \<open>app\<close>, and the
  section the run leaves behind.\<close>

definition section_stream :: "Env \<Rightarrow> App \<Rightarrow> BookData \<Rightarrow> nat \<Rightarrow> string list \<times> string option" where
  "section_stream env app bd k = stream_at env bd k (before_section env app bd k)"

definition section_image :: "Env \<Rightarrow> App \<Rightarrow> BookData \<Rightarrow> nat \<Rightarrow> string result" where
  "section_image env app bd k = image_at env bd k (before_section env app bd k)"

definition section_outcome :: "Env \<Rightarrow> App \<Rightarrow> BookData \<Rightarrow> nat \<Rightarrow> Chapter" where
  "section_outcome env app bd k =
     (if skip_rule (outline bd ! k) then outline bd ! k
      else section_result (outline bd ! k) (section_stream env app bd k) (section_image env app bd k))"

lemma chapters_loop_fold:
  "chapters_loop env bd i r = fold (process_chapter env bd) [i..<length (newOutline r)] r"
proof (induction env bd i r rule: chapters_loop.induct)
  case (1 env bd i r)
  show ?case
  proof (cases "i < length (newOutline r)")
    case True
    then show ?thesis
      using "1.IH" by (subst chapters_loop.simps) (simp add: upt_conv_Cons)
  next
    case False
    then show ?thesis by (subst chapters_loop.simps) simp
  qed
qed

lemma fold_process_chapter_length [simp]:
  "length (newOutline (fold (process_chapter env bd) ks r)) = length (newOutline r)"
  by (induction ks arbitrary: r) simp_all

lemma loop_entry_newOutline [simp]: "newOutline (loop_entry env app bd) = outline bd"
  by (simp add: loop_entry_def)

lemma before_section_length [simp]:
  "length (newOutline (before_section env app bd k)) = length (outline bd)"
  by (simp add: before_section_def)

lemma before_section_0 [simp]: "before_section env app bd 0 = loop_entry env app bd"
  by (simp add: before_section_def)

lemma before_section_Suc:
  "before_section env app bd (Suc k) = process_chapter env bd k (before_section env app bd k)"
  by (simp add: before_section_def)

lemma startFullGeneration_decomp:
  assumes "bookData app = Some bd"
  shows "startFullGeneration env app =
           (before_section env app bd (length (outline bd)))\<lparr>status := COMPLETED\<rparr>"
  using assms
  by (simp add: startFullGeneration_def generation_body_def Let_def chapters_loop_fold
        before_section_def loop_entry_def)

lemma loop_entry_facts:
  assumes "bookData app = Some bd"
  shows "bookData (loop_entry env app bd) = Some (bd\<lparr>coverImage := cover_after env bd\<rparr>)"
    and "calls (loop_entry env app bd) = cover_calls bd"
    and "completedSteps (loop_entry env app bd) = 1"
    and "totalSteps (loop_entry env app bd) = 1 + 2 * length (outline bd)"
  using assms
  by (simp_all add: loop_entry_def cover_step_def run_of_def Let_def cover_after_def cover_calls_def
        setBookData_def updateProgress_def logCall_def split: sum.splits)


lemma update_at_boundary:
  assumes "k < length ys" and "length pre = k"
  shows "(pre @ drop k ys)[k := v] = (pre @ [v]) @ drop (Suc k) ys"
    and "(pre @ drop k ys) ! k = ys ! k"
    and "pre @ drop k ys = (pre @ [ys ! k]) @ drop (Suc k) ys"
  using assms by (simp_all add: list_update_append nth_append Cons_nth_drop_Suc [symmetric])

lemma before_section_state:
  assumes b: "bookData app = Some bd" and k: "k \<le> length (outline bd)"
  shows "newOutline (before_section env app bd k) =
           map (section_outcome env app bd) [0..<k] @ drop k (outline bd)
       \<and> bookData (before_section env app bd k) =
           Some (bd\<lparr>coverImage := cover_after env bd,
                   outline := newOutline (before_section env app bd k)\<rparr>)
       \<and> calls (before_section env app bd k) =
           cover_calls bd @ concat (map (section_calls bd) [0..<k])"
  using k
proof (induction k)
  case 0
  show ?case using b by (simp add: loop_entry_facts)
next
  case (Suc k)
  let ?r = "before_section env app bd k"
  have k: "k < length (outline bd)" using Suc.prems by simp
  have IH: "newOutline ?r = map (section_outcome env app bd) [0..<k] @ drop k (outline bd)"
    "bookData ?r = Some (bd\<lparr>coverImage := cover_after env bd, outline := newOutline ?r\<rparr>)"
    "calls ?r = cover_calls bd @ concat (map (section_calls bd) [0..<k])"
    using Suc.IH k by simp_all
  have at_k: "newOutline ?r ! k = outline bd ! k"
    by (simp add: IH(1) update_at_boundary(2) [OF k])
  have kr: "k < length (newOutline ?r)" using k by simp
  show ?case
  proof (cases "skip_rule (outline bd ! k)")
    case True
    then have pc: "before_section env app bd (Suc k) = ?r\<lparr>completedSteps := completedSteps ?r + 2\<rparr>"
      by (simp add: before_section_Suc process_chapter_skipped at_k)
    have o: "section_outcome env app bd k = outline bd ! k"
      using True by (simp add: section_outcome_def)
    have c: "section_calls bd k = []"
      using True by (simp add: section_calls_def)
    show ?thesis
      using IH(2,3) update_at_boundary(3) [OF k, of "map (section_outcome env app bd) [0..<k]"]
      by (simp add: pc o IH(1) c)
  next
    case False
    then have ns: "\<not> skip_rule (newOutline ?r ! k)" by (simp add: at_k)
    obtain fs failure where s: "stream_at env bd k ?r = (fs, failure)"
      by (cases "stream_at env bd k ?r")
    have o: "section_outcome env app bd k =
               section_result (newOutline ?r ! k) (fs, failure) (image_at env bd k ?r)"
      using False by (simp add: section_outcome_def section_stream_def section_image_def s at_k)
    note pc = process_chapter_not_skipped [OF kr ns IH(2) s, folded o]
    have c: "section_calls bd k = [TextCall k, ImageCall k]"
      using False by (simp add: section_calls_def)
    show ?thesis
      using update_at_boundary(1) [OF k, of "map (section_outcome env app bd) [0..<k]"]
      by (simp add: before_section_Suc pc IH(1,3) c)
  qed
qed

section \<open>Progress counting\<close>

lemma cover_step_fields [simp]:
  "completedSteps (cover_step env bd r) = completedSteps r + 1"
  "totalSteps (cover_step env bd r) = totalSteps r"
  "status (cover_step env bd r) = status r"
  "error (cover_step env bd r) = error r"
  "isApiKeyModalOpen (cover_step env bd r) = isApiKeyModalOpen r"
  by (simp_all add: cover_step_def Let_def setBookData_def split: sum.splits)

lemma chapters_loop_fields [simp]:
  "totalSteps (chapters_loop env bd i r) = totalSteps r"
  "status (chapters_loop env bd i r) = status r"
  "error (chapters_loop env bd i r) = error r"
  "isApiKeyModalOpen (chapters_loop env bd i r) = isApiKeyModalOpen r"
  "length (newOutline (chapters_loop env bd i r)) = length (newOutline r)"
  by (induction env bd i r rule: chapters_loop.induct; subst chapters_loop.simps; simp)+

lemma chapters_loop_completedSteps:
  "completedSteps (chapters_loop env bd i r) =
     completedSteps r + 2 * (length (newOutline r) - i)"
proof (induction env bd i r rule: chapters_loop.induct)
  case (1 env bd i r)
  show ?case
  proof (cases "i < length (newOutline r)")
    case True
    then show ?thesis
      using "1.IH" by (subst chapters_loop.simps) (simp add: Suc_diff_Suc)
  next
    case False
    then show ?thesis by (subst chapters_loop.simps) simp
  qed
qed

text \<open>C1. For a project with N sections, Phase C computes \<^verbatim>\<open>totalSteps\<close> = 1 + 2N, and
  when the run is over its counter \<^verbatim>\<open>completedSteps\<close> equals \<^verbatim>\<open>totalSteps\<close> and the
  status is \<^verbatim>\<open>COMPLETED\<close>, whatever sections the resume rule skipped and whatever the
  provider answered for the cover, the texts and the images.\<close>

theorem C1_steps_completed_eq_total:
  assumes "bookData app = Some bd"
  shows "totalSteps (startFullGeneration env app) = 1 + 2 * length (outline bd)
       \<and> completedSteps (startFullGeneration env app) = totalSteps (startFullGeneration env app)
       \<and> status (startFullGeneration env app) = COMPLETED"
  using assms
  by (simp add: startFullGeneration_def generation_body_def Let_def
        chapters_loop_completedSteps)

text \<open>The scenario of the specification: topic "Topic", three sections, format document;
  the project as outline synthesis leaves it, and a provider that answers every call.\<close>

definition example_config :: BookConfig where
  "example_config =
     \<lparr>topic = ''Topic'', title = ''A Title'', authorName = [], audience = ''General Reader'',
      tone = ''Informative & Engaging'', enableSearch = True, style = ''Modern Minimalist'',
      chapterCount = 3, format = Ebook\<rparr>"

definition pending_chapter :: "string \<Rightarrow> string \<Rightarrow> string \<Rightarrow> Chapter" where
  "pending_chapter i t d =
     \<lparr>chapter_id = i, chapter_title = t, description = d, content = None, imageUrl = None,
      chapter_status = Pending\<rparr>"

definition example_book :: BookData where
  "example_book =
     \<lparr>book_config = example_config, coverImage = None,
      outline = [pending_chapter ''chap-0'' ''One'' ''first'',
                 pending_chapter ''chap-1'' ''Two'' ''second'',
                 pending_chapter ''chap-2'' ''Three'' ''third''],
      generatedAt = 0\<rparr>"

definition app_with :: "GenerationStatus \<Rightarrow> BookData option \<Rightarrow> App" where
  "app_with st b =
     \<lparr>status = st, config = example_config, bookData = b, error = None,
      isApiKeyModalOpen = False,
      generationProgress = \<lparr>current = 0, total = 0, message = []\<rparr>\<rparr>"

definition example_env :: Env where
  "example_env =
     \<lparr>localStorage_key = Some ''key'', env_API_KEY = None,
      sdk_text = (\<lambda>n req. Inr None),
      sdk_stream = (\<lambda>n req. Inr ([Some ''Hello, '', Some ''world''], None)),
      sdk_image = (\<lambda>n req. Inr [Some (''image/png'', ''AAAA'')]),
      JSON_parse = (\<lambda>s. Inl ''Unexpected token'')\<rparr>"

theorem C1_steps_completed_eq_total_witness:
  "bookData (app_with REVIEWING_OUTLINE (Some example_book)) = Some example_book
   \<and> totalSteps (startFullGeneration example_env (app_with REVIEWING_OUTLINE (Some example_book))) = 7
   \<and> completedSteps (startFullGeneration example_env (app_with REVIEWING_OUTLINE (Some example_book))) = 7
   \<and> status (startFullGeneration example_env (app_with REVIEWING_OUTLINE (Some example_book))) = COMPLETED"
proof -
  have h: "bookData (app_with REVIEWING_OUTLINE (Some example_book)) = Some example_book"
    by (simp add: app_with_def)
  have n: "length (outline example_book) = 3"
    by (simp add: example_book_def)
  show ?thesis
    using h n C1_steps_completed_eq_total [OF h, of example_env] by simp
qed

section \<open>The project a run leaves behind\<close>

text \<open>Section \<open>k\<close> of the project in the React state when the run is over.\<close>

definition final_section :: "Env \<Rightarrow> App \<Rightarrow> nat \<Rightarrow> Chapter option" where
  "final_section env app k =
     map_option (\<lambda>p. outline p ! k) (bookData (startFullGeneration env app))"

lemma run_result:
  assumes "bookData app = Some bd"
  shows "bookData (startFullGeneration env app) =
           Some (bd\<lparr>coverImage := cover_after env bd,
                   outline := map (section_outcome env app bd) [0..<length (outline bd)]\<rparr>)"
    and "calls (startFullGeneration env app) =
           cover_calls bd @ concat (map (section_calls bd) [0..<length (outline bd)])"
  using before_section_state [OF assms order_refl, of env]
  by (simp_all add: startFullGeneration_decomp [OF assms])

lemma final_section_outcome:
  assumes "bookData app = Some bd" and "k < length (outline bd)"
  shows "final_section env app k = Some (section_outcome env app bd k)"
  using assms by (simp add: final_section_def run_result(1))

lemma all_skipped_outcome:
  assumes "list_all skip_rule (outline bd)"
  shows "map (section_outcome env app bd) [0..<length (outline bd)] = outline bd"
    and "concat (map (section_calls bd) [0..<length (outline bd)]) = []"
  using assms
  by (auto simp: list_all_length section_outcome_def section_calls_def intro: nth_equalityI)

section \<open>Resume\<close>

text \<open>C2 (amended). On a project in which every section satisfies the skip rule (status
  \<^verbatim>\<open>completed\<close>, truthy content, truthy \<^verbatim>\<open>imageUrl\<close>), Phase C leaves the outline as it
  was, and its only possible provider call is the cover call, made exactly when the project
  has no cover. When the cover is set too, the run makes no provider call at all and leaves
  the whole project unchanged.\<close>

theorem C2_resume_unchanged:
  assumes "bookData app = Some bd" and "list_all skip_rule (outline bd)"
  shows "map_option outline (bookData (startFullGeneration env app)) = Some (outline bd)
       \<and> calls (startFullGeneration env app) = cover_calls bd
       \<and> (truthy (coverImage bd) \<longrightarrow>
            calls (startFullGeneration env app) = []
          \<and> bookData (startFullGeneration env app) = Some bd)"
  using assms
  by (simp add: run_result all_skipped_outcome cover_calls_def cover_after_def)


text \<open>A finished project: two sections that are done, with or without a cover.\<close>

definition done_chapter :: "string \<Rightarrow> string \<Rightarrow> string \<Rightarrow> Chapter" where
  "done_chapter i t d =
     \<lparr>chapter_id = i, chapter_title = t, description = d, content = Some ''Finished text.'',
      imageUrl = Some ''data:image/png;base64,AAAA'', chapter_status = Completed\<rparr>"

definition finished_book :: "string option \<Rightarrow> BookData" where
  "finished_book cover =
     \<lparr>book_config = example_config, coverImage = cover,
      outline = [done_chapter ''chap-0'' ''One'' ''first'',
                 done_chapter ''chap-1'' ''Two'' ''second''],
      generatedAt = 0\<rparr>"

text \<open>C2 as stated fails: every section of this project is done, with content and
  illustration, but it has no cover (the cover step of the earlier run failed). The resumed
  run calls the provider for the cover and stores the result in the project.\<close>

theorem C2_resume_without_cover_counterexample:
  "list_all skip_rule (outline (finished_book None))
   \<and> calls (startFullGeneration example_env (app_with REVIEWING_OUTLINE (Some (finished_book None))))
       = [CoverCall]
   \<and> bookData (startFullGeneration example_env (app_with REVIEWING_OUTLINE (Some (finished_book None))))
       = Some (finished_book (Some ''data:image/png;base64,AAAA''))"
  by code_simp

theorem C2_resume_unchanged_witness:
  "bookData (app_with REVIEWING_OUTLINE (Some (finished_book (Some ''data:image/png;base64,CCCC''))))
     = Some (finished_book (Some ''data:image/png;base64,CCCC''))
   \<and> list_all skip_rule (outline (finished_book (Some ''data:image/png;base64,CCCC'')))
   \<and> truthy (coverImage (finished_book (Some ''data:image/png;base64,CCCC'')))
   \<and> calls (startFullGeneration example_env
         (app_with REVIEWING_OUTLINE (Some (finished_book (Some ''data:image/png;base64,CCCC''))))) = []
   \<and> bookData (startFullGeneration example_env
         (app_with REVIEWING_OUTLINE (Some (finished_book (Some ''data:image/png;base64,CCCC'')))))
       = Some (finished_book (Some ''data:image/png;base64,CCCC''))"
proof -
  let ?b = "finished_book (Some ''data:image/png;base64,CCCC'')"
  have h1: "bookData (app_with REVIEWING_OUTLINE (Some ?b)) = Some ?b"
    by (simp add: app_with_def)
  have h2: "list_all skip_rule (outline ?b)"
    by (simp add: finished_book_def done_chapter_def skip_rule_def truthy_def)
  have h3: "truthy (coverImage ?b)"
    by (simp add: finished_book_def truthy_def)
  have "calls (startFullGeneration example_env (app_with REVIEWING_OUTLINE (Some ?b))) = []
      \<and> bookData (startFullGeneration example_env (app_with REVIEWING_OUTLINE (Some ?b))) = Some ?b"
    using h3 C2_resume_unchanged [OF h1 h2, of example_env] by blast
  with h1 h2 h3 show ?thesis by blast
qed

section \<open>What an observer sees\<close>

text \<open>The snapshots the iteration for section \<open>k\<close> publishes: those of the run up to the
  end of that iteration, less those published before it.\<close>

definition section_snapshots :: "Env \<Rightarrow> App \<Rightarrow> BookData \<Rightarrow> nat \<Rightarrow> BookData option list" where
  "section_snapshots env app bd k =
     drop (length (snapshots (before_section env app bd k)))
          (snapshots (before_section env app bd (Suc k)))"

text \<open>Section \<open>k\<close> as it appears in a sequence of snapshots, its text (empty while
  \<^verbatim>\<open>content\<close> is absent), and the texts seen while the section is in its writing
  sub-step, that is, while its status is \<^verbatim>\<open>generating_text\<close>.\<close>

fun observed_section :: "nat \<Rightarrow> BookData option list \<Rightarrow> Chapter list" where
  "observed_section k [] = []"
| "observed_section k (None # snaps) = observed_section k snaps"
| "observed_section k (Some p # snaps) = (outline p ! k) # observed_section k snaps"

definition content_text :: "Chapter \<Rightarrow> string" where
  "content_text c = (case content c of None \<Rightarrow> [] | Some t \<Rightarrow> t)"

definition writing_contents :: "nat \<Rightarrow> BookData option list \<Rightarrow> string list" where
  "writing_contents k snaps =
     map content_text
       (filter (\<lambda>c. chapter_status c = Generating_text) (observed_section k snaps))"

lemma observed_section_append [simp]:
  "observed_section k (xs @ ys) = observed_section k xs @ observed_section k ys"
  by (induction k xs rule: observed_section.induct) simp_all

lemma observed_section_map_Some [simp]:
  "observed_section k (map (\<lambda>t. Some (f t)) ts) = map (\<lambda>t. outline (f t) ! k) ts"
  by (induction ts) simp_all

lemma before_section_at:
  assumes "bookData app = Some bd" and "k < length (outline bd)"
  shows "newOutline (before_section env app bd k) ! k = outline bd ! k"
  using before_section_state [OF assms(1), of k env] assms(2)
  by (simp add: update_at_boundary(2))

lemma section_snapshots_skipped:
  assumes "bookData app = Some bd" and "k < length (outline bd)" and "skip_rule (outline bd ! k)"
  shows "section_snapshots env app bd k = []"
  using assms
  by (simp add: section_snapshots_def before_section_Suc process_chapter_skipped before_section_at)

lemma section_snapshots_not_skipped:
  assumes b: "bookData app = Some bd" and k: "k < length (outline bd)"
      and ns: "\<not> skip_rule (outline bd ! k)"
      and s: "section_stream env app bd k = (fs, failure)"
  shows "observed_section k (section_snapshots env app bd k) =
           [(outline bd ! k)\<lparr>chapter_status := Generating_text\<rparr>]
           @ map (\<lambda>t. (outline bd ! k)\<lparr>content := Some t, chapter_status := Generating_text\<rparr>)
               (stream_contents [] fs)
           @ [(outline bd ! k)\<lparr>content := Some (text_result (fs, failure)),
                                chapter_status := Generating_image\<rparr>,
              section_outcome env app bd k]"
proof -
  let ?r = "before_section env app bd k"
  have at_k: "newOutline ?r ! k = outline bd ! k"
    by (rule before_section_at [OF b k])
  have kr: "k < length (newOutline ?r)" using k by simp
  have ns': "\<not> skip_rule (newOutline ?r ! k)" using ns by (simp add: at_k)
  have bk: "bookData ?r = Some (bd\<lparr>coverImage := cover_after env bd, outline := newOutline ?r\<rparr>)"
    using before_section_state [OF b, of k env] k by simp
  have s': "stream_at env bd k ?r = (fs, failure)"
    using s by (simp add: section_stream_def)
  have o: "section_outcome env app bd k =
               section_result (newOutline ?r ! k) (fs, failure) (image_at env bd k ?r)"
    using ns by (simp add: section_outcome_def section_stream_def section_image_def s' at_k)
  note pc = process_chapter_not_skipped(4) [OF kr ns' bk s', folded o]
  show ?thesis
    using kr by (simp add: section_snapshots_def before_section_Suc pc at_k)
qed


lemma stream_contents_chain: "successively prefix (ft # stream_contents ft fs)"
  by (induction fs arbitrary: ft) simp_all

lemma stream_contents_successively: "successively prefix (stream_contents ft fs)"
  using stream_contents_chain [of ft fs] by (auto simp: successively_Cons)

lemma stream_contents_take:
  "stream_contents ft fs = map (\<lambda>j. ft @ concat (take (Suc j) fs)) [0..<length fs]"
proof (induction fs arbitrary: ft)
  case Nil
  show ?case by simp
next
  case (Cons f fs)
  have "[0..<length (f # fs)] = 0 # map Suc [0..<length fs]"
    by (simp add: upt_conv_Cons map_Suc_upt del: upt_Suc)
  then show ?case
    by (simp add: Cons.IH comp_def del: upt_Suc)
qed

lemma stream_contents_Nil [simp]: "stream_contents ft fs = [] \<longleftrightarrow> fs = []"
  by (cases fs) simp_all

lemma stream_contents_last:
  "fs \<noteq> [] \<Longrightarrow> last (stream_contents ft fs) = ft @ concat fs"
proof (induction fs arbitrary: ft)
  case Nil
  then show ?case by simp
next
  case (Cons f fs)
  then show ?case by (cases "fs = []") simp_all
qed

lemma stream_contents_closing:
  "successively prefix (stream_contents [] fs @ [text_result (fs, failure)])"
proof (cases "fs = []")
  case True
  then show ?thesis by simp
next
  case False
  have "prefix (concat fs) (text_result (fs, failure))"
    by (cases failure; cases "concat fs = []") (simp_all add: text_result_def del: concat_eq_Nil_conv)
  with False show ?thesis
    by (simp add: successively_append_iff stream_contents_successively stream_contents_last)
qed


text \<open>The snapshot the cover step publishes, if any.\<close>

definition cover_snapshots :: "Env \<Rightarrow> BookData \<Rightarrow> BookData option list" where
  "cover_snapshots env bd =
     (if truthy (coverImage bd) then []
      else case generateBookCover env 0 (title (book_config bd)) (style (book_config bd))
                  (format (book_config bd)) of
             Inr coverUrl \<Rightarrow> [Some (bd\<lparr>coverImage := Some coverUrl\<rparr>)]
           | Inl e \<Rightarrow> [])"

lemma loop_entry_snapshots:
  assumes "bookData app = Some bd"
  shows "snapshots (loop_entry env app bd) = cover_snapshots env bd"
  using assms
  by (simp add: loop_entry_def cover_step_def run_of_def Let_def cover_snapshots_def
        setBookData_def updateProgress_def logCall_def split: sum.splits)

lemma before_section_snapshots_Suc:
  assumes b: "bookData app = Some bd" and k: "k < length (outline bd)"
  shows "snapshots (before_section env app bd (Suc k)) =
           snapshots (before_section env app bd k) @ section_snapshots env app bd k"
proof (cases "skip_rule (outline bd ! k)")
  case True
  then show ?thesis
    using b k
    by (simp add: section_snapshots_def before_section_Suc process_chapter_skipped before_section_at)
next
  case False
  let ?r = "before_section env app bd k"
  have at_k: "newOutline ?r ! k = outline bd ! k"
    by (rule before_section_at [OF b k])
  have kr: "k < length (newOutline ?r)" using k by simp
  have ns': "\<not> skip_rule (newOutline ?r ! k)" using False by (simp add: at_k)
  have bk: "bookData ?r = Some (bd\<lparr>coverImage := cover_after env bd, outline := newOutline ?r\<rparr>)"
    using before_section_state [OF b, of k env] k by simp
  obtain fs failure where s: "stream_at env bd k ?r = (fs, failure)"
    by (cases "stream_at env bd k ?r")
  show ?thesis
    by (simp add: section_snapshots_def before_section_Suc
          process_chapter_not_skipped(4) [OF kr ns' bk s])
qed

lemma before_section_snapshots:
  assumes "bookData app = Some bd" and "k \<le> length (outline bd)"
  shows "snapshots (before_section env app bd k) =
           cover_snapshots env bd @ concat (map (section_snapshots env app bd) [0..<k])"
  using assms(2)
proof (induction k)
  case 0
  show ?case by (simp add: loop_entry_snapshots [OF assms(1)])
next
  case (Suc k)
  then show ?case
    by (simp add: before_section_snapshots_Suc [OF assms(1)])
qed

lemma run_snapshots:
  assumes "bookData app = Some bd"
  shows "snapshots (startFullGeneration env app) =
           cover_snapshots env bd
           @ concat (map (section_snapshots env app bd) [0..<length (outline bd)])"
  using before_section_snapshots [OF assms order_refl, of env]
  by (simp add: startFullGeneration_decomp [OF assms])

lemma writing_contents_append [simp]:
  "writing_contents k (xs @ ys) = writing_contents k xs @ writing_contents k ys"
  by (simp add: writing_contents_def)

lemma writing_contents_section:
  assumes "bookData app = Some bd" and "k < length (outline bd)"
      and "\<not> skip_rule (outline bd ! k)"
      and "section_stream env app bd k = (fs, failure)"
  shows "writing_contents k (section_snapshots env app bd k) =
           content_text (outline bd ! k) # stream_contents [] fs"
  by (simp add: writing_contents_def section_snapshots_not_skipped [OF assms]
        section_outcome_def section_result_def assms(3) content_text_def comp_def)

section \<open>Streaming\<close>

text \<open>C4 (amended). In the writing sub-step of a section that is not skipped, the first
  snapshot still shows the content the section had before the run; from then on there is one
  snapshot per fragment, the \<open>j\<close>-th showing the concatenation of the first \<open>j\<close> fragments,
  so each extends the one before, and the text stored when the sub-step ends extends the last
  of them. When the section had no content before the run, the whole sequence of snapshots of
  the sub-step is a chain of extensions.\<close>

theorem C4_fragments_extend_content:
  assumes "bookData app = Some bd" and "k < length (outline bd)"
      and "\<not> skip_rule (outline bd ! k)"
      and "section_stream env app bd k = (fs, failure)"
  shows "writing_contents k (section_snapshots env app bd k) =
           content_text (outline bd ! k) # stream_contents [] fs
       \<and> stream_contents [] fs = map (\<lambda>j. concat (take (Suc j) fs)) [0..<length fs]
       \<and> successively prefix (stream_contents [] fs @ [text_result (fs, failure)])
       \<and> (content_text (outline bd ! k) = [] \<longrightarrow>
            successively prefix (writing_contents k (section_snapshots env app bd k)))"
proof -
  have w: "writing_contents k (section_snapshots env app bd k) =
             content_text (outline bd ! k) # stream_contents [] fs"
    by (rule writing_contents_section [OF assms])
  have t: "stream_contents [] fs = map (\<lambda>j. concat (take (Suc j) fs)) [0..<length fs]"
    using stream_contents_take [of "[]" fs] by simp
  have e: "content_text (outline bd ! k) = [] \<longrightarrow>
            successively prefix (writing_contents k (section_snapshots env app bd k))"
    using stream_contents_chain [of "[]" fs] by (simp add: w)
  from w t e stream_contents_closing show ?thesis by blast
qed


lemma example_env_answers [simp]:
  "getClient example_env = Inr ()"
  "generateChapterContentStream example_env n c t cfg prev = ([''Hello, '', ''world''], None)"
  "generateChapterIllustration example_env n ct sty fmt = Inr ''data:image/png;base64,AAAA''"
  "generateBookCover example_env n ct sty fmt = Inr ''data:image/png;base64,AAAA''"
  by (simp_all add: example_env_def getClient_def js_or_def truthy_def
        generateChapterContentStream_def generateChapterIllustration_def generateBookCover_def
        generateImage_def)

text \<open>A project on resume: its only section is done and has text, but its illustration
  failed in the earlier run, so the skip rule does not apply.\<close>

definition stale_book :: BookData where
  "stale_book =
     \<lparr>book_config = example_config, coverImage = Some ''data:image/png;base64,CCCC'',
      outline = [\<lparr>chapter_id = ''chap-0'', chapter_title = ''One'', description = ''first'',
                  content = Some ''Old text'', imageUrl = None, chapter_status = Completed\<rparr>],
      generatedAt = 0\<rparr>"

text \<open>C4 as stated fails on resume: the snapshot published at the start of the writing
  sub-step shows the old text, and the next one shows the first fragment only, which does not
  extend it.\<close>

theorem C4_first_fragment_replaces_counterexample:
  "section_stream example_env (app_with REVIEWING_OUTLINE (Some stale_book)) stale_book 0
     = ([''Hello, '', ''world''], None)
   \<and> writing_contents 0
        (snapshots (startFullGeneration example_env (app_with REVIEWING_OUTLINE (Some stale_book))))
     = [''Old text'', ''Hello, '', ''Hello, world'']
   \<and> \<not> successively prefix (writing_contents 0
        (snapshots (startFullGeneration example_env (app_with REVIEWING_OUTLINE (Some stale_book)))))"
proof -
  let ?app = "app_with REVIEWING_OUTLINE (Some stale_book)"
  have b: "bookData ?app = Some stale_book"
    by (simp add: app_with_def)
  have k: "0 < length (outline stale_book)"
    by (simp add: stale_book_def)
  have ns: "\<not> skip_rule (outline stale_book ! 0)"
    by (simp add: stale_book_def skip_rule_def truthy_def)
  have s: "section_stream example_env ?app stale_book 0 = ([''Hello, '', ''world''], None)"
    by (simp add: section_stream_def stream_at_def)
  have c: "cover_snapshots example_env stale_book = []"
    by (simp add: cover_snapshots_def stale_book_def truthy_def)
  have n: "[0..<length (outline stale_book)] = [0]"
    by (simp add: stale_book_def)
  have w: "writing_contents 0 (snapshots (startFullGeneration example_env ?app))
             = [''Old text'', ''Hello, '', ''Hello, world'']"
    using writing_contents_section [OF b k ns s]
    by (simp add: run_snapshots [OF b] c n) (simp add: stale_book_def content_text_def)
  show ?thesis
    unfolding w using s by simp
qed


theorem C4_fragments_extend_content_witness:
  "bookData (app_with REVIEWING_OUTLINE (Some example_book)) = Some example_book
   \<and> 1 < length (outline example_book)
   \<and> \<not> skip_rule (outline example_book ! 1)
   \<and> section_stream example_env (app_with REVIEWING_OUTLINE (Some example_book)) example_book 1
       = ([''Hello, '', ''world''], None)
   \<and> content_text (outline example_book ! 1) = []
   \<and> writing_contents 1
        (section_snapshots example_env (app_with REVIEWING_OUTLINE (Some example_book)) example_book 1)
       = [[], ''Hello, '', ''Hello, world'']
   \<and> successively prefix (writing_contents 1
        (section_snapshots example_env (app_with REVIEWING_OUTLINE (Some example_book)) example_book 1))"
proof -
  let ?app = "app_with REVIEWING_OUTLINE (Some example_book)"
  have h1: "bookData ?app = Some example_book"
    by (simp add: app_with_def)
  have h2: "1 < length (outline example_book)"
    by (simp add: example_book_def)
  have h3: "\<not> skip_rule (outline example_book ! 1)"
    by (simp add: example_book_def pending_chapter_def skip_rule_def)
  have h4: "section_stream example_env ?app example_book 1 = ([''Hello, '', ''world''], None)"
    by (simp add: section_stream_def stream_at_def)
  have h5: "content_text (outline example_book ! 1) = []"
    by (simp add: example_book_def pending_chapter_def content_text_def)
  note t = C4_fragments_extend_content [OF h1 h2 h3 h4]
  have w: "writing_contents 1 (section_snapshots example_env ?app example_book 1)
             = [[], ''Hello, '', ''Hello, world'']"
    using t h5 by simp
  have m: "successively prefix
             (writing_contents 1 (section_snapshots example_env ?app example_book 1))"
    using t h5 by blast
  from h1 h2 h3 h4 h5 w m show ?thesis by blast
qed

section \<open>Failures inside a section\<close>

lemma concat_upt_split:
  assumes "k < n"
  shows "concat (map f [0..<n]) = concat (map f [0..<k]) @ f k @ concat (map f [Suc k..<n])"
proof -
  have "[0..<k + (n - k)] = [0..<k] @ [k..<k + (n - k)]"
    by (rule upt_add_eq_append) simp
  then have "[0..<n] = [0..<k] @ k # [Suc k..<n]"
    using assms by (simp add: upt_conv_Cons)
  then show ?thesis by simp
qed

lemma section_snapshots_in_run:
  assumes "bookData app = Some bd" and "k < length (outline bd)"
      and "c \<in> set (observed_section k (section_snapshots env app bd k))"
  shows "c \<in> set (observed_section k (snapshots (startFullGeneration env app)))"
  using assms(3)
  by (simp add: run_snapshots [OF assms(1)]
        concat_upt_split [OF assms(2), of "section_snapshots env app bd"])

lemma section_calls_in_run:
  assumes "bookData app = Some bd" and "k < length (outline bd)"
  shows "calls (startFullGeneration env app) =
           (cover_calls bd @ concat (map (section_calls bd) [0..<k]))
           @ section_calls bd k
           @ concat (map (section_calls bd) [Suc k..<length (outline bd)])"
  by (simp add: run_result(2) [OF assms(1)] concat_upt_split [OF assms(2), of "section_calls bd"])

lemma stream_fragments_nonempty:
  "f \<in> set (fst (generateChapterContentStream env n c t cfg prev)) \<Longrightarrow> f \<noteq> []"
  by (auto simp: generateChapterContentStream_def truthy_def
      split: sum.splits prod.splits option.splits)

lemma section_stream_fragments:
  assumes "section_stream env app bd k = (fs, failure)"
  shows "concat fs = [] \<longleftrightarrow> fs = []"
proof -
  have "\<forall>f \<in> set fs. f \<noteq> []"
    using assms stream_fragments_nonempty
    unfolding section_stream_def stream_at_def by (metis fst_conv)
  then show ?thesis by (cases fs) auto
qed

text \<open>C5. When the text stream of a section that is not skipped fails after the fragments
  \<open>fs\<close>, the run still ends \<^verbatim>\<open>COMPLETED\<close>; the section's content is the concatenation
  of \<open>fs\<close> when at least one fragment arrived and the fixed placeholder when none did; the
  section is published with that content in status \<^verbatim>\<open>generating_image\<close>, its illustration
  is requested, and it ends with status \<^verbatim>\<open>completed\<close>.\<close>

theorem C5_stream_failure_fallback:
  assumes "bookData app = Some bd" and "k < length (outline bd)"
      and "\<not> skip_rule (outline bd ! k)"
      and "section_stream env app bd k = (fs, Some e)"
  shows "status (startFullGeneration env app) = COMPLETED
       \<and> (\<exists>c. final_section env app k = Some c
              \<and> content c = Some (if fs = [] then TEXT_ERROR_PLACEHOLDER else concat fs)
              \<and> chapter_status c = Completed)
       \<and> (outline bd ! k)\<lparr>content := Some (if fs = [] then TEXT_ERROR_PLACEHOLDER else concat fs),
                            chapter_status := Generating_image\<rparr>
            \<in> set (observed_section k (snapshots (startFullGeneration env app)))
       \<and> ImageCall k \<in> set (calls (startFullGeneration env app))"
proof -
  have t: "text_result (fs, Some e) = (if fs = [] then TEXT_ERROR_PLACEHOLDER else concat fs)"
    using section_stream_fragments [OF assms(4)] by (simp add: text_result_def)
  have st: "status (startFullGeneration env app) = COMPLETED"
    by (simp add: startFullGeneration_decomp [OF assms(1)])
  have fin: "final_section env app k =
               Some (section_result (outline bd ! k) (fs, Some e) (section_image env app bd k))"
    using assms by (simp add: final_section_outcome section_outcome_def)
  have "(outline bd ! k)\<lparr>content := Some (text_result (fs, Some e)),
                         chapter_status := Generating_image\<rparr>
          \<in> set (observed_section k (section_snapshots env app bd k))"
    by (simp add: section_snapshots_not_skipped [OF assms])
  then have obs: "(outline bd ! k)\<lparr>content := Some (text_result (fs, Some e)),
                         chapter_status := Generating_image\<rparr>
          \<in> set (observed_section k (snapshots (startFullGeneration env app)))"
    by (rule section_snapshots_in_run [OF assms(1,2)])
  have cl: "ImageCall k \<in> set (calls (startFullGeneration env app))"
    using assms(3) by (simp add: section_calls_in_run [OF assms(1,2)] section_calls_def)
  show ?thesis
    using st obs cl by (simp add: fin section_result_def t del: text_result_def)
qed


text \<open>A provider whose stream for the second section fails after the fragment
  "Intro. ".\<close>

definition interrupted_env :: Env where
  "interrupted_env =
     example_env\<lparr>sdk_stream :=
       (\<lambda>n req. case req of
          TextRequest c t cfg prev \<Rightarrow>
            if chapter_id c = ''chap-1'' then Inr ([Some ''Intro. ''], Some ''stream interrupted'')
            else Inr ([Some ''Hello, '', Some ''world''], None)
        | _ \<Rightarrow> Inl ''bad request'')\<rparr>"

lemma section_stream_eq:
  assumes "bookData app = Some bd" and "k < length (outline bd)"
  shows "section_stream env app bd k =
           generateChapterContentStream env (length (calls (before_section env app bd k)))
             (outline bd ! k) (title (book_config bd)) (book_config bd)
             (prevContext k (newOutline (before_section env app bd k)))"
  by (simp add: section_stream_def stream_at_def before_section_at [OF assms])

theorem C5_stream_failure_fallback_witness:
  "bookData (app_with REVIEWING_OUTLINE (Some example_book)) = Some example_book
   \<and> 1 < length (outline example_book)
   \<and> \<not> skip_rule (outline example_book ! 1)
   \<and> section_stream interrupted_env (app_with REVIEWING_OUTLINE (Some example_book)) example_book 1
       = ([''Intro. ''], Some ''stream interrupted'')
   \<and> status (startFullGeneration interrupted_env (app_with REVIEWING_OUTLINE (Some example_book)))
       = COMPLETED
   \<and> (\<exists>c. final_section interrupted_env (app_with REVIEWING_OUTLINE (Some example_book)) 1 = Some c
          \<and> content c = Some ''Intro. '' \<and> chapter_status c = Completed)
   \<and> ImageCall 1 \<in> set (calls (startFullGeneration interrupted_env
                                   (app_with REVIEWING_OUTLINE (Some example_book))))"
proof -
  let ?app = "app_with REVIEWING_OUTLINE (Some example_book)"
  have h1: "bookData ?app = Some example_book"
    by (simp add: app_with_def)
  have h2: "1 < length (outline example_book)"
    by (simp add: example_book_def)
  have h3: "\<not> skip_rule (outline example_book ! 1)"
    by (simp add: example_book_def pending_chapter_def skip_rule_def)
  have h4: "section_stream interrupted_env ?app example_book 1
              = ([''Intro. ''], Some ''stream interrupted'')"
    unfolding section_stream_eq [OF h1 h2]
    by (simp add: generateChapterContentStream_def getClient_def js_or_def truthy_def
          interrupted_env_def example_env_def example_book_def pending_chapter_def)
  show ?thesis
    using h1 h2 h3 h4 C5_stream_failure_fallback [OF h1 h2 h3 h4] by simp
qed

text \<open>C6 (amended). Whatever the image sub-step of a section \<open>k\<close> that is not skipped
  returns, the run goes on: it ends \<^verbatim>\<open>COMPLETED\<close>, every section that is not skipped gets
  its text call and its image call, in document order, and every section ends with status
  \<^verbatim>\<open>completed\<close>. Section \<open>k\<close> gets the new \<^verbatim>\<open>imageUrl\<close> when the call succeeds and keeps
  the \<^verbatim>\<open>imageUrl\<close> it had before the run (none, if it had none) when the call fails. The
  counter stands one above its value at the start of the iteration when the image step
  begins, and two above when the iteration ends: the image step adds one in both cases.\<close>

theorem C6_image_failure_isolated:
  assumes "bookData app = Some bd" and "k < length (outline bd)"
      and "\<not> skip_rule (outline bd ! k)"
  shows "(\<exists>c. final_section env app k = Some c
              \<and> chapter_status c = Completed
              \<and> imageUrl c = (case section_image env app bd k of
                                Inr url \<Rightarrow> Some url
                              | Inl e \<Rightarrow> imageUrl (outline bd ! k)))
       \<and> status (startFullGeneration env app) = COMPLETED
       \<and> calls (startFullGeneration env app) =
            cover_calls bd @ concat (map (section_calls bd) [0..<length (outline bd)])
       \<and> list_all (\<lambda>j. map_option chapter_status (final_section env app j) = Some Completed)
            [0..<length (outline bd)]
       \<and> current (generationProgress (before_section env app bd (Suc k))) =
            completedSteps (before_section env app bd k) + 1
       \<and> completedSteps (before_section env app bd (Suc k)) =
            completedSteps (before_section env app bd k) + 2"
proof -
  let ?r = "before_section env app bd k"
  have fin: "final_section env app k =
               Some (section_result (outline bd ! k) (section_stream env app bd k)
                       (section_image env app bd k))"
    using assms by (simp add: final_section_outcome section_outcome_def)
  have st: "status (startFullGeneration env app) = COMPLETED"
    by (simp add: startFullGeneration_decomp [OF assms(1)])
  have alldone: "list_all (\<lambda>j. map_option chapter_status (final_section env app j) = Some Completed)
            [0..<length (outline bd)]"
    by (auto simp: list_all_iff final_section_outcome [OF assms(1)] section_outcome_def
          section_result_def skip_rule_def)
  have at_k: "newOutline ?r ! k = outline bd ! k"
    by (rule before_section_at [OF assms(1,2)])
  have kr: "k < length (newOutline ?r)" using assms(2) by simp
  have ns': "\<not> skip_rule (newOutline ?r ! k)" using assms(3) by (simp add: at_k)
  have bk: "bookData ?r = Some (bd\<lparr>coverImage := cover_after env bd, outline := newOutline ?r\<rparr>)"
    using before_section_state [OF assms(1), of k env] assms(2) by simp
  obtain fs failure where s: "stream_at env bd k ?r = (fs, failure)"
    by (cases "stream_at env bd k ?r")
  have pr: "current (generationProgress (before_section env app bd (Suc k))) =
            completedSteps ?r + 1"
    by (simp add: before_section_Suc process_chapter_not_skipped(5) [OF kr ns' bk s])
  have cs: "completedSteps (before_section env app bd (Suc k)) = completedSteps ?r + 2"
    by (simp add: before_section_Suc)
  show ?thesis
    using st alldone pr cs
    by (simp add: fin section_result_def run_result(2) [OF assms(1)])
qed


text \<open>A provider that returns no image, and a finished project whose only section had its
  text cleared in the reader.\<close>

definition no_image_env :: Env where
  "no_image_env = example_env\<lparr>sdk_image := (\<lambda>n req. Inr [])\<rparr>"

lemma no_image_env_answers [simp]:
  "generateChapterIllustration no_image_env n ct sty fmt = Inl ''No image generated''"
  "generateBookCover no_image_env n ct sty fmt = Inl ''No image generated''"
  by (simp_all add: no_image_env_def example_env_def getClient_def js_or_def truthy_def
        generateChapterIllustration_def generateBookCover_def generateImage_def)

definition cleared_book :: BookData where
  "cleared_book =
     \<lparr>book_config = example_config, coverImage = Some ''data:image/png;base64,CCCC'',
      outline = [\<lparr>chapter_id = ''chap-0'', chapter_title = ''One'', description = ''first'',
                  content = Some [], imageUrl = Some ''data:image/png;base64,AAAA'',
                  chapter_status = Completed\<rparr>],
      generatedAt = 0\<rparr>"

text \<open>C6 as stated fails where the section had an illustration before the run: the image
  sub-step fails, and the section ends with the old \<^verbatim>\<open>imageUrl\<close>, not with none.\<close>

theorem C6_failed_image_keeps_old_counterexample:
  "\<not> skip_rule (outline cleared_book ! 0)
   \<and> section_image no_image_env (app_with REVIEWING_OUTLINE (Some cleared_book)) cleared_book 0
       = Inl ''No image generated''
   \<and> map_option imageUrl
         (final_section no_image_env (app_with REVIEWING_OUTLINE (Some cleared_book)) 0)
       = Some (Some ''data:image/png;base64,AAAA'')"
proof -
  let ?app = "app_with REVIEWING_OUTLINE (Some cleared_book)"
  have b: "bookData ?app = Some cleared_book"
    by (simp add: app_with_def)
  have k: "0 < length (outline cleared_book)"
    by (simp add: cleared_book_def)
  have ns: "\<not> skip_rule (outline cleared_book ! 0)"
    by (simp add: cleared_book_def skip_rule_def truthy_def)
  have i: "section_image no_image_env ?app cleared_book 0 = Inl ''No image generated''"
    by (simp add: section_image_def image_at_def)
  have "map_option imageUrl (final_section no_image_env ?app 0)
          = Some (imageUrl (outline cleared_book ! 0))"
    using ns by (simp add: final_section_outcome [OF b k] section_outcome_def section_result_def i)
  then show ?thesis
    using ns i by (simp add: cleared_book_def)
qed

theorem C6_image_failure_isolated_witness:
  "bookData (app_with REVIEWING_OUTLINE (Some example_book)) = Some example_book
   \<and> 0 < length (outline example_book)
   \<and> \<not> skip_rule (outline example_book ! 0)
   \<and> section_image no_image_env (app_with REVIEWING_OUTLINE (Some example_book)) example_book 0
       = Inl ''No image generated''
   \<and> (\<exists>c. final_section no_image_env (app_with REVIEWING_OUTLINE (Some example_book)) 0 = Some c
          \<and> chapter_status c = Completed \<and> imageUrl c = None)
   \<and> calls (startFullGeneration no_image_env (app_with REVIEWING_OUTLINE (Some example_book)))
       = [CoverCall, TextCall 0, ImageCall 0, TextCall 1, ImageCall 1, TextCall 2, ImageCall 2]"
proof -
  let ?app = "app_with REVIEWING_OUTLINE (Some example_book)"
  have h1: "bookData ?app = Some example_book"
    by (simp add: app_with_def)
  have h2: "0 < length (outline example_book)"
    by (simp add: example_book_def)
  have h3: "\<not> skip_rule (outline example_book ! 0)"
    by (simp add: example_book_def pending_chapter_def skip_rule_def)
  have i: "section_image no_image_env ?app example_book 0 = Inl ''No image generated''"
    by (simp add: section_image_def image_at_def)
  have n: "[0..<length (outline example_book)] = [0, 1, 2]"
    by (simp add: example_book_def upt_conv_Cons)
  have c: "cover_calls example_book @ concat (map (section_calls example_book) [0, 1, 2])
         = [CoverCall, TextCall 0, ImageCall 0, TextCall 1, ImageCall 1, TextCall 2, ImageCall 2]"
    by (simp add: cover_calls_def section_calls_def example_book_def pending_chapter_def
          skip_rule_def truthy_def)
  have u: "imageUrl (outline example_book ! 0) = None"
    by (simp add: example_book_def pending_chapter_def)
  note t = C6_image_failure_isolated [OF h1 h2 h3, of no_image_env, unfolded i u n c sum.case]
  have e: "\<exists>c. final_section no_image_env ?app 0 = Some c
             \<and> chapter_status c = Completed \<and> imageUrl c = None"
    using t by blast
  have l: "calls (startFullGeneration no_image_env ?app)
       = [CoverCall, TextCall 0, ImageCall 0, TextCall 1, ImageCall 1, TextCall 2, ImageCall 2]"
    using t by blast
  from h1 h2 h3 i e l show ?thesis by blast
qed

text \<open>C10. A section whose status is \<^verbatim>\<open>completed\<close> and whose content is non-empty, but
  which has no \<^verbatim>\<open>imageUrl\<close>, is not skipped on resume: the run requests its text and then
  its illustration; after the snapshot that opens the writing sub-step, the snapshots show
  the text growing from the empty string, not from the old content; and the content the
  section ends with is the regenerated text alone.\<close>

theorem C10_done_without_image_is_rewritten:
  assumes "bookData app = Some bd" and "k < length (outline bd)"
      and "chapter_status (outline bd ! k) = Completed"
      and "truthy (content (outline bd ! k))"
      and "\<not> truthy (imageUrl (outline bd ! k))"
  shows "\<not> skip_rule (outline bd ! k)
       \<and> (\<exists>before after. calls (startFullGeneration env app) =
              before @ [TextCall k, ImageCall k] @ after)
       \<and> writing_contents k (section_snapshots env app bd k) =
            content_text (outline bd ! k) # stream_contents [] (fst (section_stream env app bd k))
       \<and> (\<exists>c. final_section env app k = Some c
              \<and> content c = Some (text_result (section_stream env app bd k)))"
proof -
  have ns: "\<not> skip_rule (outline bd ! k)"
    using assms(5) by (simp add: skip_rule_def)
  have cl: "\<exists>before after. calls (startFullGeneration env app) =
              before @ [TextCall k, ImageCall k] @ after"
    using ns section_calls_in_run [OF assms(1,2), of env]
    by (simp only: section_calls_def if_False) blast
  have w: "writing_contents k (section_snapshots env app bd k) =
            content_text (outline bd ! k) # stream_contents [] (fst (section_stream env app bd k))"
    by (rule writing_contents_section [OF assms(1,2) ns]) (rule surjective_pairing)
  have fin: "final_section env app k =
               Some (section_result (outline bd ! k) (section_stream env app bd k)
                       (section_image env app bd k))"
    using assms(1,2) ns by (simp add: final_section_outcome section_outcome_def)
  show ?thesis
    using ns cl w by (simp add: fin section_result_def)
qed

theorem C10_done_without_image_is_rewritten_witness:
  "bookData (app_with REVIEWING_OUTLINE (Some stale_book)) = Some stale_book
   \<and> 0 < length (outline stale_book)
   \<and> chapter_status (outline stale_book ! 0) = Completed
   \<and> truthy (content (outline stale_book ! 0))
   \<and> \<not> truthy (imageUrl (outline stale_book ! 0))
   \<and> content (outline stale_book ! 0) = Some ''Old text''
   \<and> calls (startFullGeneration example_env (app_with REVIEWING_OUTLINE (Some stale_book)))
       = [TextCall 0, ImageCall 0]
   \<and> (\<exists>c. final_section example_env (app_with REVIEWING_OUTLINE (Some stale_book)) 0 = Some c
          \<and> content c = Some ''Hello, world'')"
proof -
  let ?app = "app_with REVIEWING_OUTLINE (Some stale_book)"
  have h1: "bookData ?app = Some stale_book"
    by (simp add: app_with_def)
  have h2: "0 < length (outline stale_book)"
    by (simp add: stale_book_def)
  have h3: "chapter_status (outline stale_book ! 0) = Completed"
    and h4: "truthy (content (outline stale_book ! 0))"
    and h5: "\<not> truthy (imageUrl (outline stale_book ! 0))"
    and h6: "content (outline stale_book ! 0) = Some ''Old text''"
    by (simp_all add: stale_book_def truthy_def)
  have s: "section_stream example_env ?app stale_book 0 = ([''Hello, '', ''world''], None)"
    by (simp add: section_stream_def stream_at_def)
  have c: "calls (startFullGeneration example_env ?app) = [TextCall 0, ImageCall 0]"
    unfolding run_result(2) [OF h1]
    by (simp add: cover_calls_def section_calls_def stale_book_def skip_rule_def truthy_def)
  have r: "text_result ([''Hello, '', ''world''], None) = ''Hello, world''"
    by (simp add: text_result_def)
  note t = C10_done_without_image_is_rewritten [OF h1 h2 h3 h4 h5, of example_env, unfolded s r]
  have e: "\<exists>c. final_section example_env ?app 0 = Some c \<and> content c = Some ''Hello, world''"
    using t by blast
  from h1 h2 h3 h4 h5 h6 c e show ?thesis by blast
qed


section \<open>Missing credential\<close>

text \<open>No run reaches the outer handler: the status ends \<^verbatim>\<open>COMPLETED\<close>, and the error
  message and the credential dialog stay as they were.\<close>

lemma run_never_fails:
  assumes "bookData app = Some bd"
  shows "status (startFullGeneration env app) = COMPLETED"
    and "error (startFullGeneration env app) = error app"
    and "isApiKeyModalOpen (startFullGeneration env app) = isApiKeyModalOpen app"
  using assms
  by (simp_all add: startFullGeneration_def generation_body_def Let_def run_of_def)

text \<open>No credential in either place: \<^verbatim>\<open>getClient\<close> throws in every provider call.\<close>

definition no_key_env :: Env where
  "no_key_env = example_env\<lparr>localStorage_key := None, env_API_KEY := None\<rparr>"

lemma no_key_env_answers [simp]:
  "getClient no_key_env = Inl API_KEY_MISSING"
  "generateChapterContentStream no_key_env n c t cfg prev = ([], Some API_KEY_MISSING)"
  "generateChapterIllustration no_key_env n ct sty fmt = Inl API_KEY_MISSING"
  "generateBookCover no_key_env n ct sty fmt = Inl API_KEY_MISSING"
  by (simp_all add: no_key_env_def example_env_def getClient_def js_or_def truthy_def
        generateChapterContentStream_def generateChapterIllustration_def generateBookCover_def
        generateImage_def)

text \<open>C3 against the code: with the credential missing, every provider call of the run
  raises the missing-credential error, whose message contains "API Key"; each is caught
  inside its own step. The run ends \<^verbatim>\<open>COMPLETED\<close> with no error message and the credential
  dialog closed, and every section carries the placeholder text.\<close>

theorem C3_missing_credential_run_completes:
  "getClient no_key_env = Inl API_KEY_MISSING
   \<and> js_includes API_KEY_MISSING ''API Key''
   \<and> calls (startFullGeneration no_key_env (app_with REVIEWING_OUTLINE (Some example_book)))
       = [CoverCall, TextCall 0, ImageCall 0, TextCall 1, ImageCall 1, TextCall 2, ImageCall 2]
   \<and> status (startFullGeneration no_key_env (app_with REVIEWING_OUTLINE (Some example_book)))
       = COMPLETED
   \<and> error (startFullGeneration no_key_env (app_with REVIEWING_OUTLINE (Some example_book)))
       = None
   \<and> isApiKeyModalOpen
         (startFullGeneration no_key_env (app_with REVIEWING_OUTLINE (Some example_book)))
       = False
   \<and> map_option (\<lambda>p. map content (outline p))
         (bookData (startFullGeneration no_key_env (app_with REVIEWING_OUTLINE (Some example_book))))
       = Some [Some TEXT_ERROR_PLACEHOLDER, Some TEXT_ERROR_PLACEHOLDER,
               Some TEXT_ERROR_PLACEHOLDER]"
proof -
  let ?app = "app_with REVIEWING_OUTLINE (Some example_book)"
  have b: "bookData ?app = Some example_book"
    by (simp add: app_with_def)
  have i: "js_includes API_KEY_MISSING ''API Key''"
    by (simp add: js_includes_def API_KEY_MISSING_def sublist_code)
  have n: "[0..<length (outline example_book)] = [0, 1, 2]"
    by (simp add: example_book_def upt_conv_Cons)
  have ns: "\<not> skip_rule (outline example_book ! k)" if "k < 3" for k
    using that
    by (simp add: example_book_def pending_chapter_def skip_rule_def nth_Cons split: nat.splits)
  have c: "calls (startFullGeneration no_key_env ?app)
       = [CoverCall, TextCall 0, ImageCall 0, TextCall 1, ImageCall 1, TextCall 2, ImageCall 2]"
    unfolding run_result(2) [OF b] n
    by (simp add: cover_calls_def section_calls_def ns) (simp add: example_book_def truthy_def)
  have o: "content (section_outcome no_key_env ?app example_book k) = Some TEXT_ERROR_PLACEHOLDER"
    if "k < 3" for k
    using that
    by (simp add: section_outcome_def ns section_result_def section_stream_def stream_at_def
          text_result_def)
  have p: "map_option (\<lambda>p. map content (outline p)) (bookData (startFullGeneration no_key_env ?app))
       = Some [Some TEXT_ERROR_PLACEHOLDER, Some TEXT_ERROR_PLACEHOLDER,
               Some TEXT_ERROR_PLACEHOLDER]"
    unfolding run_result(1) [OF b] n by (simp add: o)
  have e: "error (startFullGeneration no_key_env ?app) = None"
    and m: "isApiKeyModalOpen (startFullGeneration no_key_env ?app) = False"
    by (simp_all add: run_never_fails [OF b]) (simp_all add: app_with_def)
  from i c p e m run_never_fails(1) [OF b, of no_key_env] show ?thesis
    by simp
qed

section \<open>Failures of outline synthesis\<close>

text \<open>When outline synthesis is refused, in the words of the specification as amended: the
  credential is missing or the provider call fails, the response, once stripped of code
  fences and white space, is empty or is not JSON, or the parsed value is falsy or has no
  array \<^verbatim>\<open>chapters\<close>.\<close>

definition outline_rejected :: "Env \<Rightarrow> BookConfig \<Rightarrow> bool" where
  "outline_rejected env cfg \<longleftrightarrow>
     (case getClient env of
        Inl e \<Rightarrow> True
      | Inr ai \<Rightarrow>
          (case sdk_text env 0 (OutlineRequest cfg) of
             Inl e \<Rightarrow> True
           | Inr response_text \<Rightarrow>
               clean_response response_text = []
               \<or> (case JSON_parse env (clean_response response_text) of
                     Inl e \<Rightarrow> True
                   | Inr d \<Rightarrow> d = Falsy \<or> data_chapters d = None)))"

lemma generateBookOutline_rejected:
  "outline_rejected env cfg \<longleftrightarrow> (\<exists>e. generateBookOutline env 0 cfg = Inl e)"
  by (auto simp: outline_rejected_def generateBookOutline_def Let_def split: sum.splits)

lemma generateBookOutline_chapters:
  "generateBookOutline env n cfg = Inr d \<Longrightarrow> \<exists>cs. data_chapters d = Some cs"
  by (auto simp: generateBookOutline_def Let_def split: sum.splits if_splits)

lemma outline_body_failed:
  assumes "generateBookOutline env 0 (config app) = Inl e"
  shows "outline_body env now (outline_started app) = Inl e"
  using assms by (simp add: outline_body_def outline_started_def)

text \<open>C7 (amended). Outline synthesis fails exactly when the credential is missing or the
  provider call fails, the cleaned response is empty or does not parse, or the parsed value
  is falsy or has no array of chapters. On such a failure the status goes from
  \<^verbatim>\<open>GENERATING_OUTLINE\<close> back to \<^verbatim>\<open>IDLE\<close>, an error message is set, and the project is the
  one there was before.\<close>

theorem C7_outline_failure_returns_to_idle:
  assumes "topic (config app) \<noteq> []"
  shows "(outline_rejected env (config app) \<longleftrightarrow>
            (\<exists>e. generateBookOutline env 0 (config app) = Inl e))
       \<and> (outline_rejected env (config app) \<longrightarrow>
            status (outline_started app) = GENERATING_OUTLINE
          \<and> status (startOutlineGeneration env now app) = IDLE
          \<and> bookData (startOutlineGeneration env now app) = bookData app
          \<and> error (startOutlineGeneration env now app) \<noteq> None)"
proof -
  have "status (startOutlineGeneration env now app) = IDLE
      \<and> bookData (startOutlineGeneration env now app) = bookData app
      \<and> error (startOutlineGeneration env now app) \<noteq> None"
    if "generateBookOutline env 0 (config app) = Inl e" for e
    using assms outline_body_failed [OF that, of now]
    by (simp add: startOutlineGeneration_def Let_def outline_failed_def outline_started_def)
  moreover have "status (outline_started app) = GENERATING_OUTLINE"
    by (simp add: outline_started_def)
  ultimately show ?thesis
    using generateBookOutline_rejected [of env "config app"] by blast
qed

text \<open>A provider that answers with a title and an empty list of chapters.\<close>

definition empty_outline_text :: string where
  \<open>empty_outline_text = ''{"title":"T","chapters":[]}''\<close>

definition empty_outline_env :: Env where
  "empty_outline_env =
     example_env\<lparr>sdk_text := (\<lambda>n req. Inr (Some empty_outline_text)),
                 JSON_parse := (\<lambda>s. if s = empty_outline_text then Inr (Truthy (Some ''T'') (Some []))
                                      else Inl ''Unexpected token'')\<rparr>"

lemma clean_empty_outline_text: "clean_response (Some empty_outline_text) = empty_outline_text"
  unfolding clean_response_def empty_outline_text_def by code_simp

text \<open>C7 as stated fails for an empty section list: the outline is accepted, a project with
  no section is constructed and the status becomes \<^verbatim>\<open>REVIEWING_OUTLINE\<close>.\<close>

theorem C7_empty_outline_accepted_counterexample:
  "topic (config (app_with IDLE None)) \<noteq> []
   \<and> generateBookOutline empty_outline_env 0 (config (app_with IDLE None))
       = Inr (Truthy (Some ''T'') (Some []))
   \<and> status (startOutlineGeneration empty_outline_env 0 (app_with IDLE None)) = REVIEWING_OUTLINE
   \<and> map_option outline (bookData (startOutlineGeneration empty_outline_env 0 (app_with IDLE None)))
       = Some []"
proof -
  have g: "generateBookOutline empty_outline_env 0 (config (app_with IDLE None))
       = Inr (Truthy (Some ''T'') (Some []))"
    by (simp add: generateBookOutline_def empty_outline_env_def example_env_def getClient_def
          js_or_def truthy_def clean_empty_outline_text)
       (simp add: empty_outline_text_def)
  have t: "topic (config (app_with IDLE None)) \<noteq> []"
    by (simp add: app_with_def example_config_def)
  show ?thesis
    using t
    by (simp add: startOutlineGeneration_def outline_body_def outline_started_def g Let_def)
qed

theorem C7_outline_failure_returns_to_idle_witness:
  "topic (config (app_with REVIEWING_OUTLINE (Some example_book))) \<noteq> []
   \<and> outline_rejected no_key_env (config (app_with REVIEWING_OUTLINE (Some example_book)))
   \<and> generateBookOutline no_key_env 0 (config (app_with REVIEWING_OUTLINE (Some example_book)))
       = Inl API_KEY_MISSING
   \<and> status (startOutlineGeneration no_key_env 0 (app_with REVIEWING_OUTLINE (Some example_book)))
       = IDLE
   \<and> bookData (startOutlineGeneration no_key_env 0 (app_with REVIEWING_OUTLINE (Some example_book)))
       = Some example_book"
proof -
  let ?app = "app_with REVIEWING_OUTLINE (Some example_book)"
  have t: "topic (config ?app) \<noteq> []"
    by (simp add: app_with_def example_config_def)
  have r: "outline_rejected no_key_env (config ?app)"
    by (simp add: outline_rejected_def)
  have g: "generateBookOutline no_key_env 0 (config ?app) = Inl API_KEY_MISSING"
    by (simp add: generateBookOutline_def)
  have b: "bookData ?app = Some example_book"
    by (simp add: app_with_def)
  from C7_outline_failure_returns_to_idle [OF t, of no_key_env 0] r
  have "status (startOutlineGeneration no_key_env 0 ?app) = IDLE
      \<and> bookData (startOutlineGeneration no_key_env 0 ?app) = bookData ?app"
    by blast
  with t r g b show ?thesis by simp
qed

section \<open>The status \<^verbatim>\<open>error\<close> of a section\<close>

text \<open>No section of an outline, of a project, of a run (its project, its working copy of
  the outline and every snapshot it has published) has the status \<^verbatim>\<open>error\<close>.\<close>

definition no_error_status :: "Chapter list \<Rightarrow> bool" where
  "no_error_status cs = list_all (\<lambda>c. chapter_status c \<noteq> Error) cs"

definition project_ok :: "BookData option \<Rightarrow> bool" where
  "project_ok b = (case b of None \<Rightarrow> True | Some p \<Rightarrow> no_error_status (outline p))"

definition run_ok :: "Run \<Rightarrow> bool" where
  "run_ok r \<longleftrightarrow>
     project_ok (bookData r) \<and> no_error_status (newOutline r) \<and> list_all project_ok (snapshots r)"

text \<open>The states of the application: the initial one, and those the handlers of
  \<^verbatim>\<open>App\<close> lead to, with any provider and any clock. While Phase C runs, the observer sees
  each published snapshot as the project; when it is over, the state the run leaves.\<close>

inductive reachable :: "App \<Rightarrow> bool" where
  initial: "reachable initial_app"
| config_change: "reachable a \<Longrightarrow> reachable (a\<lparr>config := cfg\<rparr>)"
| set_status: "reachable a \<Longrightarrow> reachable (a\<lparr>status := st\<rparr>)"
| api_key_modal: "reachable a \<Longrightarrow> reachable (a\<lparr>isApiKeyModalOpen := b\<rparr>)"
| outline_pending: "reachable a \<Longrightarrow> topic (config a) \<noteq> [] \<Longrightarrow> reachable (outline_started a)"
| outline_done: "reachable a \<Longrightarrow> reachable (startOutlineGeneration env now a)"
| update_chapter:
    "reachable a \<Longrightarrow> handleUpdateChapter index field v a = Some a' \<Longrightarrow> reachable a'"
| add_chapter: "reachable a \<Longrightarrow> reachable (handleAddChapter now a)"
| remove_chapter: "reachable a \<Longrightarrow> reachable (handleRemoveChapter index a)"
| update_content: "reachable a \<Longrightarrow> reachable (handleUpdateBookContent chapterId newContent a)"
| update_image: "reachable a \<Longrightarrow> reachable (handleUpdateBookImage chapterId newImageUrl a)"
| generation_step:
    "reachable a \<Longrightarrow> s \<in> set (snapshots (startFullGeneration env a)) \<Longrightarrow>
     reachable (a\<lparr>status := GENERATING_BOOK, bookData := s, generationProgress := g\<rparr>)"
| generation_done: "reachable a \<Longrightarrow> reachable (App.truncate (startFullGeneration env a))"
| reset: "reachable a \<Longrightarrow> reachable (reset a)"

code_pred reachable .

lemma no_error_status_update:
  assumes "no_error_status xs" and "i < length xs \<Longrightarrow> chapter_status c \<noteq> Error"
  shows "no_error_status (xs[i := c])"
proof (cases "i < length xs")
  case True
  with assms show ?thesis
    unfolding no_error_status_def list_all_iff
    by (auto dest: subsetD [OF set_update_subset_insert])
next
  case False
  with assms(1) show ?thesis by (simp add: list_update_beyond)
qed

lemma no_error_status_nth:
  "no_error_status xs \<Longrightarrow> i < length xs \<Longrightarrow> chapter_status (xs ! i) \<noteq> Error"
  by (simp add: no_error_status_def list_all_length)

lemma run_ok_publishOutline: "run_ok r \<Longrightarrow> run_ok (publishOutline r)"
  by (auto simp: run_ok_def publishOutline_def setBookData_def project_ok_def split: option.splits)

lemma run_ok_updateProgress [simp]: "run_ok (updateProgress m r) = run_ok r"
  by (simp add: run_ok_def)

lemma run_ok_logCall [simp]: "run_ok (logCall c r) = run_ok r"
  by (simp add: run_ok_def)

lemma run_ok_completedSteps [simp]: "run_ok (r\<lparr>completedSteps := n\<rparr>) = run_ok r"
  by (simp add: run_ok_def)

lemma run_ok_newOutline:
  "run_ok r \<Longrightarrow> no_error_status xs \<Longrightarrow> run_ok (r\<lparr>newOutline := xs\<rparr>)"
  by (simp add: run_ok_def)

lemma run_ok_set_section:
  assumes "run_ok r" and "i < length (newOutline r) \<Longrightarrow> chapter_status c \<noteq> Error"
  shows "run_ok (r\<lparr>newOutline := (newOutline r)[i := c]\<rparr>)"
  using assms by (intro run_ok_newOutline no_error_status_update) (simp_all add: run_ok_def)

lemma run_ok_nth:
  "run_ok r \<Longrightarrow> i < length (newOutline r) \<Longrightarrow> chapter_status (newOutline r ! i) \<noteq> Error"
  by (simp add: run_ok_def no_error_status_nth)

lemma run_ok_consume_stream: "run_ok r \<Longrightarrow> run_ok (snd (consume_stream i fs ft r))"
proof (induction fs arbitrary: ft r)
  case Nil
  then show ?case by simp
next
  case (Cons f fs)
  show ?case
    by (simp add: Let_def)
       (intro Cons.IH run_ok_publishOutline run_ok_set_section Cons.prems,
        simp add: run_ok_nth [OF Cons.prems])
qed

lemma run_ok_text_step: "run_ok r \<Longrightarrow> run_ok (snd (text_step env bd i c r))"
  by (simp add: text_step_def Let_def case_prod_unfold run_ok_consume_stream split: option.splits)

lemma run_ok_image_step: "run_ok r \<Longrightarrow> run_ok (image_step env bd i c r)"
  by (simp add: image_step_def Let_def split: sum.splits)
     (auto intro!: run_ok_set_section [of "logCall (ImageCall i) r" for r, simplified])

lemma run_ok_process_chapter: "run_ok r \<Longrightarrow> run_ok (process_chapter env bd i r)"
  unfolding process_chapter_def Let_def case_prod_unfold begin_writing_def begin_illustrating_def
    finish_chapter_def
  by (auto intro!: run_ok_publishOutline run_ok_image_step run_ok_set_section run_ok_text_step)


lemma run_ok_chapters_loop: "run_ok r \<Longrightarrow> run_ok (chapters_loop env bd i r)"
proof (induction env bd i r rule: chapters_loop.induct)
  case (1 env bd i r)
  show ?case
    using "1.prems" "1.IH"
    by (subst chapters_loop.simps) (simp add: run_ok_process_chapter)
qed

lemma run_ok_cover_step:
  "run_ok r \<Longrightarrow> run_ok (cover_step env bd r)"
  by (auto simp: cover_step_def Let_def run_ok_def setBookData_def updateProgress_def logCall_def
        project_ok_def split: sum.splits option.splits)

lemma run_ok_startFullGeneration:
  assumes "project_ok (bookData app)"
  shows "run_ok (startFullGeneration env app)"
proof (cases "bookData app")
  case None
  then show ?thesis
    by (simp add: startFullGeneration_def run_of_def run_ok_def project_ok_def no_error_status_def)
next
  case (Some bd)
  let ?r0 = "(run_of app)\<lparr>status := GENERATING_BOOK,
                            totalSteps := 1 + length (outline bd) * 2, completedSteps := 0\<rparr>"
  have "run_ok ?r0"
    using assms by (simp add: run_of_def run_ok_def no_error_status_def)
  then have "run_ok (cover_step env bd ?r0)"
    by (rule run_ok_cover_step)
  moreover have "no_error_status (outline bd)"
    using assms Some by (simp add: project_ok_def)
  ultimately have "run_ok ((cover_step env bd ?r0)\<lparr>newOutline := outline bd\<rparr>)"
    by (rule run_ok_newOutline)
  then have "run_ok (chapters_loop env bd 0 ((cover_step env bd ?r0)\<lparr>newOutline := outline bd\<rparr>))"
    by (rule run_ok_chapters_loop)
  then show ?thesis
    using Some by (simp add: startFullGeneration_def generation_body_def Let_def run_ok_def)
qed

lemma project_ok_startOutlineGeneration:
  assumes "project_ok (bookData app)"
  shows "project_ok (bookData (startOutlineGeneration env now app))"
  using assms
  by (auto simp: startOutlineGeneration_def outline_body_def outline_started_def outline_failed_def
        Let_def project_ok_def no_error_status_def new_chapter_def list_all_iff
        split: sum.splits option.splits)

lemma project_ok_handlers:
  assumes "project_ok (bookData app)"
  shows "handleUpdateChapter index field v app = Some app' \<Longrightarrow> project_ok (bookData app')"
    and "project_ok (bookData (handleAddChapter now app))"
    and "project_ok (bookData (handleRemoveChapter index app))"
    and "project_ok (bookData (handleUpdateBookContent chapterId newContent app))"
    and "project_ok (bookData (handleUpdateBookImage chapterId newImageUrl app))"
proof -
  show "handleUpdateChapter index field v app = Some app' \<Longrightarrow> project_ok (bookData app')"
    using assms
    by (cases field)
       (auto simp: handleUpdateChapter_def project_ok_def no_error_status_nth
          intro!: no_error_status_update split: option.splits if_splits)
  show "project_ok (bookData (handleAddChapter now app))"
    using assms
    by (auto simp: handleAddChapter_def project_ok_def no_error_status_def split: option.splits)
  show "project_ok (bookData (handleRemoveChapter index app))"
    using assms
    by (auto simp: handleRemoveChapter_def project_ok_def no_error_status_def list_all_iff
          in_set_enumerate_eq split: option.splits)
  show "project_ok (bookData (handleUpdateBookContent chapterId newContent app))"
    using assms
    by (auto simp: handleUpdateBookContent_def project_ok_def no_error_status_def list_all_iff
          split: option.splits)
  show "project_ok (bookData (handleUpdateBookImage chapterId newImageUrl app))"
    using assms
    by (auto simp: handleUpdateBookImage_def project_ok_def no_error_status_def list_all_iff
          split: option.splits)
qed

text \<open>C9. In every reachable state of the application (after outline construction, after
  the edits of the review and of the reader, at every snapshot published during Phase C and
  when Phase C is over, whatever failed), no section of the project has the status
  \<^verbatim>\<open>error\<close>.\<close>

theorem C9_error_status_unreachable:
  assumes "reachable a"
  shows "project_ok (bookData a)"
  using assms
proof (induction rule: reachable.induct)
  case initial
  show ?case by (simp add: initial_app_def project_ok_def)
next
  case (outline_pending a)
  then show ?case by (simp add: outline_started_def)
next
  case (outline_done a env now)
  from outline_done.IH show ?case by (rule project_ok_startOutlineGeneration)
next
  case (update_chapter a index field v a')
  then show ?case using project_ok_handlers(1) by blast
next
  case (generation_step a s env g)
  from generation_step.IH have "run_ok (startFullGeneration env a)"
    by (rule run_ok_startFullGeneration)
  with generation_step.hyps(2) show ?case
    by (simp add: run_ok_def list_all_iff)
next
  case (generation_done a env)
  from generation_done.IH have "run_ok (startFullGeneration env a)"
    by (rule run_ok_startFullGeneration)
  then show ?case
    by (simp add: run_ok_def App.truncate_def)
next
  case (reset a)
  show ?case by (simp add: reset_def project_ok_def)
qed (simp_all add: project_ok_handlers)


text \<open>An outline of one chapter, and the state outline synthesis leaves from the initial
  state with the example configuration.\<close>

definition one_chapter_text :: string where
  \<open>one_chapter_text = ''{"title":"T","chapters":[{"title":"A","description":"a"}]}''\<close>

definition one_chapter_env :: Env where
  "one_chapter_env =
     example_env\<lparr>sdk_text := (\<lambda>n req. Inr (Some one_chapter_text)),
                 JSON_parse := (\<lambda>s. if s = one_chapter_text
                                      then Inr (Truthy (Some ''T'')
                                             (Some [\<lparr>oc_title = ''A'', oc_description = ''a'',
                                                     oc_content = None, oc_imageUrl = None\<rparr>]))
                                      else Inl ''Unexpected token'')\<rparr>"

definition outlined_app :: App where
  "outlined_app = startOutlineGeneration one_chapter_env 0 (initial_app\<lparr>config := example_config\<rparr>)"

lemma clean_one_chapter_text: "clean_response (Some one_chapter_text) = one_chapter_text"
  unfolding clean_response_def one_chapter_text_def by code_simp

lemma outlined_app_bookData:
  "bookData outlined_app =
     Some \<lparr>book_config = example_config\<lparr>title := ''T''\<rparr>, coverImage = None,
           outline = [pending_chapter ''chap-0'' ''A'' ''a''], generatedAt = 0\<rparr>"
proof -
  have g: "generateBookOutline one_chapter_env 0 example_config
             = Inr (Truthy (Some ''T'')
                 (Some [\<lparr>oc_title = ''A'', oc_description = ''a'',
                         oc_content = None, oc_imageUrl = None\<rparr>]))"
    by (simp add: generateBookOutline_def one_chapter_env_def example_env_def getClient_def
          js_or_def truthy_def clean_one_chapter_text)
       (simp add: one_chapter_text_def)
  have n: "string_of_nat 0 = ''0''"
    by code_simp
  show ?thesis
    by (simp add: outlined_app_def startOutlineGeneration_def outline_body_def outline_started_def
          g Let_def new_chapter_def pending_chapter_def str_or_def n enumerate_eq_zip)
       (simp add: example_config_def)
qed

theorem C9_error_status_unreachable_witness:
  "reachable (App.truncate (startFullGeneration no_key_env outlined_app))
   \<and> project_ok (bookData (App.truncate (startFullGeneration no_key_env outlined_app)))
   \<and> map_option (\<lambda>p. map chapter_status (outline p))
        (bookData (App.truncate (startFullGeneration no_key_env outlined_app)))
       = Some [Completed]"
proof -
  have r: "reachable (App.truncate (startFullGeneration no_key_env outlined_app))"
    unfolding outlined_app_def
    by (intro reachable.generation_done reachable.outline_done reachable.config_change
          reachable.initial)
  have s: "map_option (\<lambda>p. map chapter_status (outline p))
        (bookData (App.truncate (startFullGeneration no_key_env outlined_app)))
       = Some [Completed]"
    by (simp add: App.truncate_def run_result(1) [OF outlined_app_bookData] section_outcome_def
          section_result_def pending_chapter_def skip_rule_def)
  from r s C9_error_status_unreachable [OF r] show ?thesis by simp
qed

section \<open>Pagination coverage\<close>

subsection \<open>Rounding\<close>

text \<open>The binade that \<open>binade\<close> computes is the right one, and the only one.\<close>

lemma exponent_up_bounds:
  "1 \<le> x \<Longrightarrow> 2 ^ exponent_up x \<le> x \<and> x < 2 ^ Suc (exponent_up x)"
proof (induction x rule: exponent_up.induct)
  case (1 x)
  show ?case
  proof (cases "2 \<le> x")
    case True
    then have "2 ^ exponent_up (x / 2) \<le> x / 2 \<and> x / 2 < 2 ^ Suc (exponent_up (x / 2))"
      by (intro "1.IH") simp_all
    with True show ?thesis
      by (subst (1 2) exponent_up.simps) simp
  next
    case False
    with "1.prems" show ?thesis
      by (subst (1 2) exponent_up.simps) simp
  qed
qed

lemma exponent_down_bounds:
  "0 < x \<Longrightarrow> x < 1 \<Longrightarrow>
   1 \<le> 2 ^ exponent_down x * x \<and> 2 ^ exponent_down x * x < 2"
proof (induction x rule: exponent_down.induct)
  case (1 x)
  show ?case
  proof (cases "2 * x < 1")
    case True
    with "1.prems" have "1 \<le> 2 ^ exponent_down (2 * x) * (2 * x)
        \<and> 2 ^ exponent_down (2 * x) * (2 * x) < 2"
      by (intro "1.IH") simp_all
    with "1.prems" show ?thesis
      by (subst (1 2) exponent_down.simps) (simp add: mult.assoc)
  next
    case False
    then have "exponent_down (2 * x) = 0"
      by (subst exponent_down.simps) simp
    with False "1.prems" show ?thesis
      by (subst (1 2) exponent_down.simps) simp
  qed
qed

lemma binade_bounds:
  assumes "0 < a"
  shows "power_int 2 (binade a) \<le> a" and "a < power_int 2 (binade a + 1)"
proof -
  have "power_int 2 (binade a) \<le> a \<and> a < power_int 2 (binade a + 1)"
  proof (cases "1 \<le> a")
    case True
    then show ?thesis
      using exponent_up_bounds [OF True]
      by (simp add: binade_def power_int_add)
  next
    case False
    then have lt: "a < 1" by simp
    define n where "n = exponent_down a"
    have b: "1 \<le> 2 ^ n * a" "2 ^ n * a < 2"
      using exponent_down_bounds [OF assms lt] by (simp_all add: n_def)
    have p: "power_int (2::rat) (- int n) = 1 / 2 ^ n"
      by (simp add: power_int_minus_divide)
    have "1 / 2 ^ n \<le> a"
      using b(1) by (simp add: field_simps)
    moreover have "a < 2 / 2 ^ n"
      using b(2) by (simp add: field_simps)
    moreover have "power_int (2::rat) (1 - int n) = 2 / 2 ^ n"
      by (simp add: power_int_diff)
    ultimately show ?thesis
      using lt by (simp add: binade_def n_def [symmetric] p)
  qed
  then show "power_int 2 (binade a) \<le> a" and "a < power_int 2 (binade a + 1)"
    by simp_all
qed

lemma binade_unique:
  assumes "power_int 2 e \<le> a" and "a < power_int 2 (e + 1)"
  shows "binade a = e"
proof -
  have a: "0 < a"
    by (rule less_le_trans [OF _ assms(1)]) simp
  note b = binade_bounds [OF a]
  have "\<not> e < binade a"
  proof
    assume "e < binade a"
    then have "power_int (2::rat) (e + 1) \<le> power_int 2 (binade a)"
      by (intro power_int_increasing) simp_all
    with b(1) assms(2) show False by simp
  qed
  moreover have "\<not> binade a < e"
  proof
    assume "binade a < e"
    then have "power_int (2::rat) (binade a + 1) \<le> power_int 2 e"
      by (intro power_int_increasing) simp_all
    with b(2) assms(1) show False by simp
  qed
  ultimately show ?thesis by simp
qed

text \<open>Rounding, given the binade.\<close>

lemma round64_binade:
  assumes "power_int 2 e \<le> \<bar>x\<bar>" and "\<bar>x\<bar> < power_int 2 (e + 1)"
  shows "round64 x =
     (let y = of_int (round_even (\<bar>x\<bar> * power_int 2 (52 - max e (- 1022))))
                * power_int 2 (max e (- 1022) - 52)
      in if power_int 2 1024 \<le> y then (if 0 < x then PosInf else NegInf)
         else Finite (if 0 < x then y else - y))"
proof -
  define a where "a = \<bar>x\<bar>"
  have b: "binade a = e"
    unfolding a_def by (rule binade_unique [OF assms])
  have "0 < \<bar>x\<bar>"
    by (rule less_le_trans [OF _ assms(1)]) simp
  then have x: "x \<noteq> 0" by simp
  have d: "a / power_int 2 (max e (- 1022) - 52) = a * power_int 2 (52 - max e (- 1022))"
    using power_int_minus [of "2::rat" "max e (- 1022) - 52"]
    by (simp add: divide_inverse)
  have "round64 x =
     (let y = of_int (round_even (a / power_int 2 (max e (- 1022) - 52)))
                * power_int 2 (max e (- 1022) - 52)
      in if power_int 2 1024 \<le> y then (if 0 < x then PosInf else NegInf)
         else Finite (if 0 < x then y else - y))"
    using x by (simp add: round64_def Let_def a_def [symmetric] b)
  from this [unfolded d] show ?thesis
    unfolding a_def .
qed

lemma floor_quotient:
  "\<lfloor>numeral a / numeral b :: rat\<rfloor> = numeral a div numeral b"
  using floor_divide_of_int_eq [of "numeral a" "numeral b", where ?'a = rat] by simp

text \<open>An integer of at most 53 bits is a double.\<close>

lemma round_even_of_int: "round_even (of_int j) = j"
  by (simp add: round_even_def)

lemma exact_int:
  assumes "\<bar>n\<bar> \<le> 2 ^ 53"
  shows "round64 (of_int n) = Finite (of_int n)"
proof (cases "n = 0")
  case True
  then show ?thesis by (simp add: round64_def)
next
  case False
  define a :: rat where "a = of_int \<bar>n\<bar>"
  have a1: "1 \<le> a"
    using False by (simp add: a_def)
  have "a \<le> of_int (2 ^ 53)"
    unfolding a_def using assms by (simp only: of_int_le_iff)
  then have a53: "a \<le> 2 ^ 53" by simp
  define e where "e = exponent_up a"
  have b: "2 ^ e \<le> a"
    using exponent_up_bounds [OF a1] by (simp add: e_def)
  then have "(2::rat) ^ e \<le> 2 ^ 53" using a53 by simp
  then have e53: "e \<le> 53"
    by (intro power_le_imp_le_exp [where a = "2::rat"]) simp_all
  have bin: "binade a = int e"
    using a1 by (simp add: binade_def e_def)
  define ulp :: rat where "ulp = power_int 2 (int e - 52)"
  have ulp0: "0 < ulp"
    by (simp add: ulp_def)
  obtain j :: int where j: "a = of_int j * ulp"
  proof (cases "e = 53")
    case True
    then have "ulp = 2" by (simp add: ulp_def)
    moreover have "a = 2 ^ 53" using b a53 True by simp
    ultimately have "a = of_int (2 ^ 52) * ulp" by simp
    then show ?thesis by (rule that)
  next
    case False
    then have le: "e \<le> 52" using e53 by simp
    then have i: "int e - 52 = - int (52 - e)" by simp
    have u: "ulp = 1 / 2 ^ (52 - e)"
      unfolding ulp_def i by (simp add: power_int_minus_divide)
    have "a = of_int (\<bar>n\<bar> * 2 ^ (52 - e)) * ulp"
      by (simp add: u a_def)
    then show ?thesis by (rule that)
  qed
  have r: "of_int (round_even (a / ulp)) * ulp = a"
    using j ulp0 by (simp add: round_even_of_int)
  have no: "\<not> power_int 2 1024 \<le> a"
    using a53 by simp
  have s: "(if 0 < n then a else - a) = of_int n"
    by (simp add: a_def)
  have ab: "\<bar>of_int n :: rat\<bar> = a" by (simp add: a_def)
  have "round64 (of_int n) = Finite (if 0 < n then a else - a)"
    using False no
    by (simp add: round64_def Let_def ab bin ulp_def [symmetric] r)
  then show ?thesis
    by (simp only: s)
qed


text \<open>A rational is exact when it is a double: rounding gives it back.\<close>

definition exact :: "rat \<Rightarrow> bool" where
  "exact x \<longleftrightarrow> round64 x = Finite x"


lemma round64_20 [simp]: "round64 20 = Finite 20"
  using exact_int [of 20] by simp

subsection \<open>The loop\<close>

text \<open>The arithmetic of \<open>n\<close> rounds of the loop that starts with \<open>heightLeft\<close> and
  \<open>position\<close> is exact when the value of \<open>position\<close> that round \<open>k\<close> draws with, the ordinate
  \<open>margin + position\<close> of its image, and the height left after it are doubles.\<close>

definition loop_exact :: "rat \<Rightarrow> rat \<Rightarrow> rat \<Rightarrow> rat \<Rightarrow> nat \<Rightarrow> bool" where
  "loop_exact margin C heightLeft position n =
     list_all (\<lambda>k. exact (position - of_nat k * C)
                  \<and> exact (margin + (position - of_nat k * C))
                  \<and> exact (heightLeft - of_nat (Suc k) * C))
              [0..<n]"

text \<open>The commands of \<open>n\<close> rounds of the loop: page \<open>k\<close> shows the full image moved up by
  \<open>k\<close> times the content height \<open>C\<close>.\<close>

definition page_ops ::
  "nat \<Rightarrow> rat \<Rightarrow> number \<Rightarrow> number \<Rightarrow> rat \<Rightarrow> rat \<Rightarrow> bool \<Rightarrow> nat \<Rightarrow> PdfOp list" where
  "page_ops img margin contentWidth imgHeight C position pageAdded n =
     concat (map (\<lambda>k. (if pageAdded \<or> k > 0 then [AddPage] else [])
                       @ [AddImage img (Finite margin) (Finite (margin + position - of_nat k * C))
                            contentWidth imgHeight])
                 [0..<n])"

lemma page_ops_Suc:
  "page_ops img margin cw H C position pageAdded (Suc n) =
     (if pageAdded then [AddPage] else [])
     @ [AddImage img (Finite margin) (Finite (margin + position)) cw H]
     @ page_ops img margin cw H C (position - C) True n"
proof -
  have "[0..<Suc n] = 0 # map Suc [0..<n]"
    by (simp add: upt_conv_Cons map_Suc_upt del: upt_Suc)
  then show ?thesis
    by (simp add: page_ops_def comp_def algebra_simps del: upt_Suc)
qed

lemma loop_exact_Suc:
  "loop_exact margin C heightLeft position (Suc n) \<longleftrightarrow>
     exact position \<and> exact (margin + position) \<and> exact (heightLeft - C)
     \<and> loop_exact margin C (heightLeft - C) (position - C) n"
proof -
  have e: "[0..<Suc n] = 0 # map Suc [0..<n]"
    by (simp add: upt_conv_Cons map_Suc_upt del: upt_Suc)
  show ?thesis
    unfolding loop_exact_def e
    by (simp add: list.pred_map comp_def algebra_simps del: upt_Suc)
qed

lemma split_pages_stops:
  "\<not> nless (Finite 0) heightLeft \<Longrightarrow>
   split_pages pdfHeight margin cw img H heightLeft position pageAdded ops = Some ops"
  by (subst split_pages.simps) simp

lemma split_pages_result:
  assumes "0 < C" and "nsub pdfHeight (nmul (Finite margin) (Finite 2)) = Finite C"
  shows "nat \<lceil>heightLeft / C\<rceil> = n \<Longrightarrow> loop_exact margin C heightLeft position n \<Longrightarrow>
         split_pages pdfHeight (Finite margin) cw img H (Finite heightLeft) (Finite position)
             pageAdded ops =
           Some (ops @ page_ops img margin cw H C position pageAdded n)"
proof (induction n arbitrary: heightLeft position pageAdded ops)
  case 0
  then have "heightLeft \<le> 0"
    using assms(1) by (simp add: ceiling_le_zero divide_le_0_iff)
  then show ?case
    by (simp add: split_pages_stops page_ops_def)
next
  case (Suc n)
  then have pos: "0 < heightLeft"
    using assms(1) by (cases "heightLeft \<le> 0") (simp_all add: ceiling_le_zero divide_le_0_iff)
  have "(heightLeft - C) / C = heightLeft / C - 1"
    using assms(1) by (simp add: diff_divide_distrib)
  then have n: "nat \<lceil>(heightLeft - C) / C\<rceil> = n"
    using Suc.prems(1) by simp
  from Suc.prems(2) have ex: "exact (margin + position)" "exact (heightLeft - C)"
    and rest: "loop_exact margin C (heightLeft - C) (position - C) n"
    by (simp_all add: loop_exact_Suc)
  have y: "round64 (margin + position) = Finite (margin + position)"
    using ex(1) by (simp add: exact_def)
  have h: "nsub (Finite heightLeft) (Finite C) = Finite (heightLeft - C)"
    using ex(2) by (simp add: exact_def nsub_def)
  have c: "nsub pdfHeight (round64 (margin * 2)) = Finite C"
    using assms(2) by simp
  let ?ops = "ops @ (if pageAdded then [AddPage] else [])
                  @ [AddImage img (Finite margin) (Finite (margin + position)) cw H]"
  have step: "split_pages pdfHeight (Finite margin) cw img H (Finite heightLeft) (Finite position)
                pageAdded ops =
              split_pages pdfHeight (Finite margin) cw img H (Finite (heightLeft - C))
                (nsub (Finite position) (Finite C)) True ?ops"
    using pos by (subst split_pages.simps) (simp add: c y h)
  show ?case
  proof (cases n)
    case 0
    with n have "heightLeft - C \<le> 0"
      using assms(1) by (simp add: ceiling_le_zero divide_le_0_iff)
    then show ?thesis
      unfolding step using 0 by (simp add: split_pages_stops page_ops_Suc page_ops_def)
  next
    case (Suc n')
    with rest have "exact (position - C)"
      by (simp add: loop_exact_Suc)
    then have p: "nsub (Finite position) (Finite C) = Finite (position - C)"
      by (simp add: exact_def nsub_def)
    show ?thesis
      unfolding step p by (simp add: Suc.IH [OF n rest] page_ops_Suc)
  qed
qed


text \<open>The band of the image that falls between the top and the bottom margin of each page
  it is drawn on, as a pair of heights in the image; and whether a sequence of bands covers
  the image from \<open>lo\<close> to \<open>H\<close> with no gap, no overlap and no empty band.\<close>

fun bands :: "rat \<Rightarrow> rat \<Rightarrow> PdfOp list \<Rightarrow> (rat \<times> rat) list" where
  "bands margin C [] = []"
| "bands margin C (AddImage img x (Finite y) w (Finite h) # ops) =
     (margin - y, min (margin - y + C) h) # bands margin C ops"
| "bands margin C (op # ops) = bands margin C ops"


text \<open>The pages of one input in the words of the specification as amended: one page when
  the scaled height \<open>H\<close> is at most the page height \<open>P\<close>, and otherwise as many pages as
  content heights \<open>C\<close> are needed to cover it.\<close>

definition expected_pages :: "number \<Rightarrow> rat \<Rightarrow> rat \<Rightarrow> rat \<Rightarrow> nat \<Rightarrow> PdfOp list" where
  "expected_pages contentWidth P C H i =
     (if H \<le> P then [AddImage i (Finite 10) (Finite 10) contentWidth (Finite H)]
      else page_ops i 10 contentWidth (Finite H) C 0 False (nat \<lceil>H / C\<rceil>))"

lemma bands_append [simp]: "bands m C (xs @ ys) = bands m C xs @ bands m C ys"
  by (induction m C xs rule: bands.induct) simp_all





lemma render_section_result:
  assumes "pdfHeight = Finite P"
    and "nsub pdfHeight (nmul (Finite 10) (Finite 2)) = Finite C" and "0 < C"
    and "nsub pdfWidth (nmul (Finite 10) (Finite 2)) = contentWidth"
    and "scaled_height contentWidth imgProps = Finite H"
    and "H \<le> P \<or> loop_exact 10 C H 0 (nat \<lceil>H / C\<rceil>)"
  shows "render_section pdfWidth pdfHeight i imgProps ops =
           Some (ops @ (if i > 0 then [AddPage] else []) @ expected_pages contentWidth P C H i)"
proof -
  have cw: "nsub pdfWidth (Finite 20) = contentWidth"
    using assms(4) by simp
  show ?thesis
  proof (cases "H \<le> P")
    case True
    then show ?thesis
      by (simp add: render_section_def Let_def assms(1) cw assms(5) expected_pages_def)
  next
    case False
    with assms(6) have ex: "loop_exact 10 C H 0 (nat \<lceil>H / C\<rceil>)" by simp
    show ?thesis
      using False split_pages_result [OF assms(3,2) refl ex, where H = "Finite H"
              and cw = contentWidth and img = i and pageAdded = False]
      by (simp add: render_section_def Let_def assms(1) cw assms(5) expected_pages_def)
  qed
qed










subsection \<open>A page size that is no whole number\<close>

text \<open>The statement also applies where the lengths are no whole numbers. An A4 page of
  595.28 by 841.89 points, converted to millimetres in double arithmetic (a point is 1/72
  inch, an inch 25.4 mm), is about 210.0016 by 297.0001 mm, and its content height about
  277.0001 mm.\<close>

definition points_to_mm :: "rat \<Rightarrow> number" where
  "points_to_mm p = ndiv (round64 p) (ndiv (Finite 72) (round64 (254 / 10)))"

definition a4_points_width :: number where
  "a4_points_width = points_to_mm (59528 / 100)"

definition a4_points_height :: number where
  "a4_points_height = points_to_mm (84189 / 100)"

lemma a4_points:
  "a4_points_width = Finite (3694386434950095 / 17592186044416)"
  "a4_points_height = Finite (5224880721207055 / 17592186044416)"
proof -
  have m: "round64 (127 / 5) = Finite (3574732204225331 / 140737488355328)"
    using round64_binade [of "4" "127 / 5"]
    by (simp add: round_even_def Let_def floor_quotient)
  have k: "round64 (10133099161583616 / 3574732204225331) = Finite (1595763647493483 / 562949953421312)"
    using round64_binade [of "1" "10133099161583616 / 3574732204225331"]
    by (simp add: round_even_def Let_def floor_quotient)
  have w: "round64 (14882 / 25) = Finite (2618069127129989 / 4398046511104)"
    using round64_binade [of "9" "14882 / 25"]
    by (simp add: round_even_def Let_def floor_quotient)
  have h: "round64 (84189 / 100) = Finite (7405342754466693 / 8796093022208)"
    using round64_binade [of "9" "84189 / 100"]
    by (simp add: round_even_def Let_def floor_quotient)
  have w1: "round64 (25777911405587584 / 122751049807191) = Finite (3694386434950095 / 17592186044416)"
    using round64_binade [of "7" "25777911405587584 / 122751049807191"]
    by (simp add: round_even_def Let_def floor_quotient)
  have h1: "round64 (157980645428622784 / 531921215831161) = Finite (5224880721207055 / 17592186044416)"
    using round64_binade [of "8" "157980645428622784 / 531921215831161"]
    by (simp add: round_even_def Let_def floor_quotient)
  show "a4_points_width = Finite (3694386434950095 / 17592186044416)"
    by (simp add: a4_points_width_def points_to_mm_def m k w w1)
  show "a4_points_height = Finite (5224880721207055 / 17592186044416)"
    by (simp add: a4_points_height_def points_to_mm_def m k h h1)
qed

lemma a4_points_content:
  "nsub a4_points_width (Finite 20) = Finite (3342542714061775 / 17592186044416)"
  "nsub a4_points_height (Finite 20) = Finite (4873037000318735 / 17592186044416)"
proof -
  have w: "round64 (3342542714061775 / 17592186044416) = Finite (3342542714061775 / 17592186044416)"
    using round64_binade [of "7" "3342542714061775 / 17592186044416"]
    by (simp add: round_even_def Let_def floor_quotient)
  have h: "round64 (4873037000318735 / 17592186044416) = Finite (4873037000318735 / 17592186044416)"
    using round64_binade [of "8" "4873037000318735 / 17592186044416"]
    by (simp add: round_even_def Let_def floor_quotient)
  show "nsub a4_points_width (Finite 20) = Finite (3342542714061775 / 17592186044416)"
    by (simp add: a4_points nsub_def w)
  show "nsub a4_points_height (Finite 20) = Finite (4873037000318735 / 17592186044416)"
    by (simp add: a4_points nsub_def h)
qed

text \<open>There a bitmap of 1600 by 2358 pixels is scaled to about 280.015 mm, more than the
  content height and less than the page height: it gets one page, as in the counterexample
  above.\<close>

lemma scaled_2358:
  "scaled_height (Finite (3342542714061775 / 17592186044416)) \<lparr>bitmap_width = 1600, bitmap_height = 2358\<rparr>
     = Finite (4926072324848541 / 17592186044416)"
proof -
  have i: "round64 1600 = Finite 1600" "round64 2358 = Finite 2358"
    using exact_int [of 1600] exact_int [of 2358] by simp_all
  have p: "round64 (3940857859878832725 / 8796093022208) = Finite (7696988007575845 / 17179869184)"
    using round64_binade [of "18" "3940857859878832725 / 8796093022208"]
    by (simp add: round_even_def Let_def floor_quotient)
  have q: "round64 (1539397601515169 / 5497558138880) = Finite (4926072324848541 / 17592186044416)"
    using round64_binade [of "8" "1539397601515169 / 5497558138880"]
    by (simp add: round_even_def Let_def floor_quotient)
  show ?thesis
    by (simp add: scaled_height_def num_def i p q)
qed

lemma scaled_6000:
  "scaled_height (Finite (3342542714061775 / 17592186044416)) \<lparr>bitmap_width = 1600, bitmap_height = 6000\<rparr>
     = Finite (1566816897216457 / 2199023255552)"
proof -
  have i: "round64 1600 = Finite 1600" "round64 6000 = Finite 6000"
    using exact_int [of 1600] exact_int [of 6000] by simp_all
  have p: "round64 (1253453517773165625 / 1099511627776) = Finite (1224075700950357 / 1073741824)"
    using round64_binade [of "20" "1253453517773165625 / 1099511627776"]
    by (simp add: round_even_def Let_def floor_quotient)
  have q: "round64 (1224075700950357 / 1717986918400) = Finite (1566816897216457 / 2199023255552)"
    using round64_binade [of "9" "1224075700950357 / 1717986918400"]
    by (simp add: round_even_def Let_def floor_quotient)
  show ?thesis
    by (simp add: scaled_height_def num_def i p q)
qed

lemma a4_points_single_page:
  "render_section a4_points_width a4_points_height 0
       \<lparr>bitmap_width = 1600, bitmap_height = 2358\<rparr> []
     = Some [AddImage 0 (Finite 10) (Finite 10) (Finite (3342542714061775 / 17592186044416))
               (Finite (4926072324848541 / 17592186044416))]
   \<and> (4873037000318735 / 17592186044416 :: rat) < 4926072324848541 / 17592186044416
   \<and> (4926072324848541 / 17592186044416 :: rat) \<le> 5224880721207055 / 17592186044416"
  by (simp add: render_section_def Let_def a4_points_content scaled_2358) (simp add: a4_points)

text \<open>A bitmap of 1600 by 6000 pixels is scaled to about 712.506 mm; the arithmetic of the
  loop is exact, and it gets three pages.\<close>

lemma a4_points_three_pages:
  "loop_exact 10 (4873037000318735 / 17592186044416) (1566816897216457 / 2199023255552) 0 3
   \<and> render_section a4_points_width a4_points_height 1
       \<lparr>bitmap_width = 1600, bitmap_height = 6000\<rparr> []
     = Some [AddPage,
             AddImage 1 (Finite 10) (Finite 10) (Finite (3342542714061775 / 17592186044416)) (Finite (1566816897216457 / 2199023255552)),
             AddPage,
             AddImage 1 (Finite 10) (Finite (- (4697115139874575 / 17592186044416))) (Finite (3342542714061775 / 17592186044416)) (Finite (1566816897216457 / 2199023255552)),
             AddPage,
             AddImage 1 (Finite 10) (Finite (- (4785076070096655 / 8796093022208))) (Finite (3342542714061775 / 17592186044416)) (Finite (1566816897216457 / 2199023255552))]"
proof -
  let ?C = "4873037000318735 / 17592186044416 :: rat"
  let ?H = "1566816897216457 / 2199023255552 :: rat"
  let ?P = "5224880721207055 / 17592186044416 :: rat"
  have l0: "round64 (7661498177412921 / 17592186044416) = Finite (7661498177412921 / 17592186044416)"
    using round64_binade [of "8" "7661498177412921 / 17592186044416"]
    by (simp add: round_even_def Let_def floor_quotient)
  have p1: "round64 (- (4873037000318735 / 17592186044416)) = Finite (- (4873037000318735 / 17592186044416))"
    using round64_binade [of "8" "- (4873037000318735 / 17592186044416)"]
    by (simp add: round_even_def Let_def floor_quotient)
  have y1: "round64 (- (4697115139874575 / 17592186044416)) = Finite (- (4697115139874575 / 17592186044416))"
    using round64_binade [of "8" "- (4697115139874575 / 17592186044416)"]
    by (simp add: round_even_def Let_def floor_quotient)
  have l1: "round64 (1394230588547093 / 8796093022208) = Finite (1394230588547093 / 8796093022208)"
    using round64_binade [of "7" "1394230588547093 / 8796093022208"]
    by (simp add: round_even_def Let_def floor_quotient)
  have p2: "round64 (- (4873037000318735 / 8796093022208)) = Finite (- (4873037000318735 / 8796093022208))"
    using round64_binade [of "9" "- (4873037000318735 / 8796093022208)"]
    by (simp add: round_even_def Let_def floor_quotient)
  have y2: "round64 (- (4785076070096655 / 8796093022208)) = Finite (- (4785076070096655 / 8796093022208))"
    using round64_binade [of "9" "- (4785076070096655 / 8796093022208)"]
    by (simp add: round_even_def Let_def floor_quotient)
  have l2: "round64 (- (2084575823224549 / 17592186044416)) = Finite (- (2084575823224549 / 17592186044416))"
    using round64_binade [of "6" "- (2084575823224549 / 17592186044416)"]
    by (simp add: round_even_def Let_def floor_quotient)
  have z: "round64 10 = Finite 10"
    using exact_int [of 10] by simp
  have z0: "round64 0 = Finite 0"
    by (simp add: round64_def)
  have "\<lceil>?H / ?C\<rceil> = 3"
    by (rule ceiling_unique) simp_all
  then have n: "nat \<lceil>?H / ?C\<rceil> = 3" by simp
  have ex: "loop_exact 10 ?C ?H 0 3"
    by (simp add: loop_exact_def exact_def upt_conv_Cons z z0 l0 p1 y1 l1 p2 y2 l2)
  have h: "?H \<le> ?P \<or> loop_exact 10 ?C ?H 0 (nat \<lceil>?H / ?C\<rceil>)"
    unfolding n by (rule disjI2) (rule ex)
  have c: "nsub a4_points_height (nmul (Finite 10) (Finite 2)) = Finite ?C"
    and w: "nsub a4_points_width (nmul (Finite 10) (Finite 2)) = Finite (3342542714061775 / 17592186044416)"
    by (simp_all add: a4_points_content)
  have e: "expected_pages (Finite (3342542714061775 / 17592186044416)) ?P ?C ?H 1
     = [AddImage 1 (Finite 10) (Finite 10) (Finite (3342542714061775 / 17592186044416)) (Finite ?H),
        AddPage,
        AddImage 1 (Finite 10) (Finite (- (4697115139874575 / 17592186044416))) (Finite (3342542714061775 / 17592186044416)) (Finite ?H),
        AddPage,
        AddImage 1 (Finite 10) (Finite (- (4785076070096655 / 8796093022208))) (Finite (3342542714061775 / 17592186044416)) (Finite ?H)]"
    unfolding expected_pages_def n by (simp add: page_ops_def upt_conv_Cons)
  have "render_section a4_points_width a4_points_height 1
       \<lparr>bitmap_width = 1600, bitmap_height = 6000\<rparr> []
     = Some ([] @ (if 0 < (1::nat) then [AddPage] else [])
              @ expected_pages (Finite (3342542714061775 / 17592186044416)) ?P ?C ?H 1)"
    by (rule render_section_result [OF a4_points(2) c _ w scaled_6000 h]) simp
  then show ?thesis
    unfolding e using ex by simp
qed

subsection \<open>Where the arithmetic is not exact\<close>

text \<open>The proviso on the loop is needed. On a page 33 + 3/2^47 high the content height is
  \<open>C\<close> = 13 + 3/2^47; a square bitmap on a content width of 78 + 9/2^46 is scaled to that
  height, which is 6 \<open>C\<close>. The first subtraction, 6 \<open>C\<close> - \<open>C\<close>, is rounded up; after six rounds
  the height left is 2^-47, not 0, and the loop draws a seventh page. The sixth and the seventh
  image are moved up by more than 5 \<open>C\<close> and 6 \<open>C\<close>: a sliver of the image past 5 \<open>C\<close> is
  on no page, and the seventh page shows nothing of the image.\<close>

definition tight_height :: rat where
  "tight_height = 13 + 3 / 2 ^ 47"

lemma rounded_multiple_gets_empty_page:
  "nsub (Finite (33 + 3 / 2 ^ 47)) (nmul (Finite 10) (Finite 2)) = Finite tight_height
   \<and> scaled_height (nsub (Finite (98 + 9 / 2 ^ 46)) (nmul (Finite 10) (Finite 2)))
         \<lparr>bitmap_width = 1024, bitmap_height = 1024\<rparr> = Finite (6 * tight_height)
   \<and> render_section (Finite (98 + 9 / 2 ^ 46)) (Finite (33 + 3 / 2 ^ 47)) 0
         \<lparr>bitmap_width = 1024, bitmap_height = 1024\<rparr> []
       = Some [AddImage 0 (Finite 10) (Finite 10)
                 (Finite (6 * tight_height)) (Finite (6 * tight_height)),
               AddPage,
               AddImage 0 (Finite 10) (Finite (10 - tight_height))
                 (Finite (6 * tight_height)) (Finite (6 * tight_height)),
               AddPage,
               AddImage 0 (Finite 10) (Finite (10 - 2 * tight_height))
                 (Finite (6 * tight_height)) (Finite (6 * tight_height)),
               AddPage,
               AddImage 0 (Finite 10) (Finite (10 - 3 * tight_height))
                 (Finite (6 * tight_height)) (Finite (6 * tight_height)),
               AddPage,
               AddImage 0 (Finite 10) (Finite (10 - 4 * tight_height))
                 (Finite (6 * tight_height)) (Finite (6 * tight_height)),
               AddPage,
               AddImage 0 (Finite 10) (Finite (10 - (65 + 1 / 2 ^ 43)))
                 (Finite (6 * tight_height)) (Finite (6 * tight_height)),
               AddPage,
               AddImage 0 (Finite 10) (Finite (10 - (78 + 5 / 2 ^ 45)))
                 (Finite (6 * tight_height)) (Finite (6 * tight_height))]
   \<and> nat \<lceil>6 * tight_height / tight_height\<rceil> = 6
   \<and> 5 * tight_height < 65 + 1 / 2 ^ 43
   \<and> 6 * tight_height < 78 + 5 / 2 ^ 45"
proof -
  have r1: "round64 (5488762045857801 / 70368744177664) = Finite (5488762045857801 / 70368744177664)"
    using round64_binade [of "6" "5488762045857801 / 70368744177664"]
    by (simp add: round_even_def Let_def floor_quotient)
  have r2: "round64 1024 = Finite 1024"
    using round64_binade [of "10" "1024"]
    by (simp add: round_even_def Let_def floor_quotient)
  have r3: "round64 (5488762045857801 / 68719476736) = Finite (5488762045857801 / 68719476736)"
    using round64_binade [of "16" "5488762045857801 / 68719476736"]
    by (simp add: round_even_def Let_def floor_quotient)
  have r4: "round64 (1829587348619267 / 140737488355328) = Finite (1829587348619267 / 140737488355328)"
    using round64_binade [of "3" "1829587348619267 / 140737488355328"]
    by (simp add: round_even_def Let_def floor_quotient)
  have r5: "round64 (9147936743096335 / 140737488355328) = Finite (571746046443521 / 8796093022208)"
    using round64_binade [of "6" "9147936743096335 / 140737488355328"]
    by (simp add: round_even_def Let_def floor_quotient)
  have r6: "round64 (- (1829587348619267 / 140737488355328)) = Finite (- (1829587348619267 / 140737488355328))"
    using round64_binade [of "3" "- (1829587348619267 / 140737488355328)"]
    by (simp add: round_even_def Let_def floor_quotient)
  have r7: "round64 (- (422212465065987 / 140737488355328)) = Finite (- (422212465065987 / 140737488355328))"
    using round64_binade [of "1" "- (422212465065987 / 140737488355328)"]
    by (simp add: round_even_def Let_def floor_quotient)
  have r8: "round64 (7318349394477069 / 140737488355328) = Finite (7318349394477069 / 140737488355328)"
    using round64_binade [of "5" "7318349394477069 / 140737488355328"]
    by (simp add: round_even_def Let_def floor_quotient)
  have r9: "round64 (- (1829587348619267 / 70368744177664)) = Finite (- (1829587348619267 / 70368744177664))"
    using round64_binade [of "4" "- (1829587348619267 / 70368744177664)"]
    by (simp add: round_even_def Let_def floor_quotient)
  have r10: "round64 (- (1125899906842627 / 70368744177664)) = Finite (- (1125899906842627 / 70368744177664))"
    using round64_binade [of "4" "- (1125899906842627 / 70368744177664)"]
    by (simp add: round_even_def Let_def floor_quotient)
  have r11: "round64 (2744381022928901 / 70368744177664) = Finite (2744381022928901 / 70368744177664)"
    using round64_binade [of "5" "2744381022928901 / 70368744177664"]
    by (simp add: round_even_def Let_def floor_quotient)
  have r12: "round64 (- (5488762045857801 / 140737488355328)) = Finite (- (5488762045857801 / 140737488355328))"
    using round64_binade [of "5" "- (5488762045857801 / 140737488355328)"]
    by (simp add: round_even_def Let_def floor_quotient)
  have r13: "round64 (- (4081387162304521 / 140737488355328)) = Finite (- (4081387162304521 / 140737488355328))"
    using round64_binade [of "4" "- (4081387162304521 / 140737488355328)"]
    by (simp add: round_even_def Let_def floor_quotient)
  have r14: "round64 (3659174697238535 / 140737488355328) = Finite (3659174697238535 / 140737488355328)"
    using round64_binade [of "4" "3659174697238535 / 140737488355328"]
    by (simp add: round_even_def Let_def floor_quotient)
  have r15: "round64 (- (1829587348619267 / 35184372088832)) = Finite (- (1829587348619267 / 35184372088832))"
    using round64_binade [of "5" "- (1829587348619267 / 35184372088832)"]
    by (simp add: round_even_def Let_def floor_quotient)
  have r16: "round64 (- (1477743627730947 / 35184372088832)) = Finite (- (1477743627730947 / 35184372088832))"
    using round64_binade [of "5" "- (1477743627730947 / 35184372088832)"]
    by (simp add: round_even_def Let_def floor_quotient)
  have r17: "round64 (457396837154817 / 35184372088832) = Finite (457396837154817 / 35184372088832)"
    using round64_binade [of "3" "457396837154817 / 35184372088832"]
    by (simp add: round_even_def Let_def floor_quotient)
  have r18: "round64 (- (9147936743096335 / 140737488355328)) = Finite (- (571746046443521 / 8796093022208))"
    using round64_binade [of "6" "- (9147936743096335 / 140737488355328)"]
    by (simp add: round_even_def Let_def floor_quotient)
  have r19: "round64 (- (483785116221441 / 8796093022208)) = Finite (- (483785116221441 / 8796093022208))"
    using round64_binade [of "5" "- (483785116221441 / 8796093022208)"]
    by (simp add: round_even_def Let_def floor_quotient)
  have r20: "round64 (1 / 140737488355328) = Finite (1 / 140737488355328)"
    using round64_binade [of "- 47" "1 / 140737488355328"]
    by (simp add: round_even_def Let_def floor_quotient)
  have r21: "round64 (- (10977524091715603 / 140737488355328)) = Finite (- (2744381022928901 / 35184372088832))"
    using round64_binade [of "6" "- (10977524091715603 / 140737488355328)"]
    by (simp add: round_even_def Let_def floor_quotient)
  have r22: "round64 (- (2392537302040581 / 35184372088832)) = Finite (- (2392537302040581 / 35184372088832))"
    using round64_binade [of "6" "- (2392537302040581 / 35184372088832)"]
    by (simp add: round_even_def Let_def floor_quotient)
  have r23: "round64 (- (914793674309633 / 70368744177664)) = Finite (- (914793674309633 / 70368744177664))"
    using round64_binade [of "3" "- (914793674309633 / 70368744177664)"]
    by (simp add: round_even_def Let_def floor_quotient)
  have r24: "round64 (- (12807111440334871 / 140737488355328)) = Finite (- (1600888930041859 / 17592186044416))"
    using round64_binade [of "6" "- (12807111440334871 / 140737488355328)"]
    by (simp add: round_even_def Let_def floor_quotient)
  have r0: "round64 10 = Finite 10"
    using exact_int [of 10] by simp
  note r = r0 r1 r2 r3 r4 r5 r6 r7 r8 r9 r10 r11 r12 r13 r14 r15 r16 r17 r18 r19 r20 r21 r22 r23 r24
  have c: "nsub (Finite (33 + 3 / 2 ^ 47)) (nmul (Finite 10) (Finite 2)) = Finite tight_height"
    by (simp add: tight_height_def nsub_def r)
  have w: "nsub (Finite (98 + 9 / 2 ^ 46)) (nmul (Finite 10) (Finite 2)) = Finite (6 * tight_height)"
    by (simp add: tight_height_def nsub_def r)
  have h: "scaled_height (Finite (6 * tight_height))
         \<lparr>bitmap_width = 1024, bitmap_height = 1024\<rparr> = Finite (6 * tight_height)"
    by (simp add: tight_height_def scaled_height_def num_def r)
  show ?thesis
    unfolding c w h render_section_def Let_def
    by (simp add: tight_height_def nsub_def split_pages.simps r)
qed


text \<open>The scaled height is rounded too. A bitmap of 3 by 61 pixels on a content width of 1
  is 61/3 high, which is no double; the code computes the double below it. On a page of
  that height the section fits its page.\<close>

lemma rounded_height_fits_the_page:
  "round64 (61 / 3) = Finite (5723324526450005 / 281474976710656)
   \<and> 5723324526450005 / 281474976710656 < (61 / 3 :: rat)
   \<and> render_section (Finite 21) (Finite (5723324526450005 / 281474976710656)) 0
         \<lparr>bitmap_width = 3, bitmap_height = 61\<rparr> []
       = Some [AddImage 0 (Finite 10) (Finite 10) (Finite 1)
                 (Finite (5723324526450005 / 281474976710656))]"
proof -
  have r: "round64 (61 / 3) = Finite (5723324526450005 / 281474976710656)"
    using round64_binade [of 4 "61 / 3"]
    by (simp add: round_even_def Let_def floor_quotient)
  have i: "round64 1 = Finite 1" "round64 3 = Finite 3" "round64 61 = Finite 61"
    using exact_int [of 1] exact_int [of 3] exact_int [of 61] by simp_all
  show ?thesis
    by (simp add: render_section_def Let_def scaled_height_def num_def nsub_def r i)
qed

section \<open>The published progress\<close>

text \<open>The counter of C1 is the local \<^verbatim>\<open>completedSteps\<close>. The progress the observer sees
  (\<^verbatim>\<open>generationProgress\<close>) is refreshed by \<^verbatim>\<open>updateProgress\<close> only, at the start of the
  cover step and of the two sub-steps of a section: after a run whose last section was not
  skipped it shows one step less than the total.\<close>


lemma before_section_completedSteps:
  assumes "bookData app = Some bd"
  shows "completedSteps (before_section env app bd k) = 1 + 2 * k"
    and "totalSteps (before_section env app bd k) = 1 + 2 * length (outline bd)"
proof -
  show "completedSteps (before_section env app bd k) = 1 + 2 * k"
    by (induction k) (simp_all add: before_section_Suc loop_entry_facts(3) [OF assms])
  show "totalSteps (before_section env app bd k) = 1 + 2 * length (outline bd)"
    by (induction k) (simp_all add: before_section_Suc loop_entry_facts(4) [OF assms])
qed

lemma published_progress_after_last_section:
  assumes b: "bookData app = Some bd" and n: "length (outline bd) = Suc m"
      and ns: "\<not> skip_rule (outline bd ! m)"
  shows "current (generationProgress (startFullGeneration env app)) = 2 * length (outline bd)"
    and "total (generationProgress (startFullGeneration env app)) = 1 + 2 * length (outline bd)"
proof -
  let ?r = "before_section env app bd m"
  have m: "m < length (outline bd)" using n by simp
  have at_m: "newOutline ?r ! m = outline bd ! m"
    by (rule before_section_at [OF b m])
  have kr: "m < length (newOutline ?r)" using m by simp
  have ns': "\<not> skip_rule (newOutline ?r ! m)" using ns by (simp add: at_m)
  have bk: "bookData ?r = Some (bd\<lparr>coverImage := cover_after env bd, outline := newOutline ?r\<rparr>)"
    using before_section_state [OF b, of m env] m by simp
  obtain fs failure where s: "stream_at env bd m ?r = (fs, failure)"
    by (cases "stream_at env bd m ?r")
  have g: "generationProgress (startFullGeneration env app) =
             \<lparr>current = completedSteps ?r + 1, total = totalSteps ?r,
              message = ''Illustrating Chapter '' @ string_of_nat (m + 1) @ ''...''\<rparr>"
    by (simp add: startFullGeneration_decomp [OF b] n before_section_Suc
          process_chapter_not_skipped(5) [OF kr ns' bk s])
  show "current (generationProgress (startFullGeneration env app)) = 2 * length (outline bd)"
    by (simp add: g before_section_completedSteps [OF b] n)
  show "total (generationProgress (startFullGeneration env app)) = 1 + 2 * length (outline bd)"
    by (simp add: g before_section_completedSteps [OF b])
qed

end
